theory Spec2Isabelle
  imports Complex_Main "HOL-Library.Word"
begin

unbundle bit_operations_syntax

section \<open>The JavaScript platform: errors, byte buffers, DataView\<close>

text \<open>
  The entity serialisation code of the SDK writes typed values into a \<open>DataView\<close>.
  A \<open>DataView\<close> is modelled by the list of the bytes it covers, \<open>byteLength\<close> being
  the length of the list. Every access method of a \<open>DataView\<close> throws a
  \<open>RangeError\<close> when the bytes it touches do not lie inside the view, and touches
  nothing in that case; a property access on \<open>undefined\<close> or \<open>null\<close> throws a
  \<open>TypeError\<close>. A function that can throw returns \<open>error + 'a\<close>, \<open>Inl\<close> the
  exception. A byte offset given to a method is an integer: a method first converts it
  with \<open>ToIndex\<close>, which throws a \<open>RangeError\<close> on a negative one. (An offset that
  is not an integer, or one from \<open>2 ^ 53\<close> on, is not modelled.)
\<close>

datatype error = TypeError | RangeError

definition bindE :: "error + 'a \<Rightarrow> ('a \<Rightarrow> error + 'b) \<Rightarrow> error + 'b" where
  "bindE m f = (case m of Inl e \<Rightarrow> Inl e | Inr x \<Rightarrow> f x)"

type_synonym byte = "8 word"
type_synonym dataview = "byte list"

definition byteLength :: "dataview \<Rightarrow> nat" where
  "byteLength d = length d"

text \<open>The view with the bytes \<open>bs\<close> stored from position \<open>p\<close> on.\<close>

definition storeBytes :: "dataview \<Rightarrow> nat \<Rightarrow> byte list \<Rightarrow> dataview" where
  "storeBytes d p bs = take p d @ bs @ drop (p + length bs) d"

definition ToIndex :: "int \<Rightarrow> error + nat" where
  "ToIndex byteOffset = (if byteOffset < 0 then Inl RangeError else Inr (nat byteOffset))"

definition write_bytes :: "dataview \<Rightarrow> int \<Rightarrow> byte list \<Rightarrow> error + dataview" where
  "write_bytes d byteOffset bs =
     bindE (ToIndex byteOffset) (\<lambda>p.
     if p + length bs \<le> byteLength d then Inr (storeBytes d p bs) else Inl RangeError)"

definition read_bytes :: "dataview \<Rightarrow> int \<Rightarrow> nat \<Rightarrow> error + byte list" where
  "read_bytes d byteOffset n =
     bindE (ToIndex byteOffset) (\<lambda>p.
     if p + n \<le> byteLength d then Inr (take n (drop p d)) else Inl RangeError)"

text \<open>
  The \<open>n\<close> low-order bytes of an integer, least significant byte first; the integer is
  reduced modulo \<open>2 ^ (8 * n)\<close>, which is what the unsigned setters of a \<open>DataView\<close>
  do to a value that is out of range. Big-endian is the reverse order.
\<close>

fun le_bytes :: "nat \<Rightarrow> int \<Rightarrow> byte list" where
  "le_bytes 0 v = []"
| "le_bytes (Suc n) v = word_of_int v # le_bytes n (v div 256)"

fun le_int :: "byte list \<Rightarrow> int" where
  "le_int [] = 0"
| "le_int (b # bs) = uint b + 256 * le_int bs"

definition int_bytes :: "bool \<Rightarrow> nat \<Rightarrow> int \<Rightarrow> byte list" where
  "int_bytes littleEndian n v = (if littleEndian then le_bytes n v else rev (le_bytes n v))"

definition bytes_int :: "bool \<Rightarrow> byte list \<Rightarrow> int" where
  "bytes_int littleEndian bs = (if littleEndian then le_int bs else le_int (rev bs))"

text \<open>\<open>DataView.setBigUint64\<close> and \<open>DataView.getBigUint64\<close>, on bigints.\<close>

definition setBigUint64 :: "dataview \<Rightarrow> int \<Rightarrow> int \<Rightarrow> bool \<Rightarrow> error + dataview" where
  "setBigUint64 d byteOffset v littleEndian = write_bytes d byteOffset (int_bytes littleEndian 8 v)"

definition getBigUint64 :: "dataview \<Rightarrow> int \<Rightarrow> bool \<Rightarrow> error + int" where
  "getBigUint64 d byteOffset littleEndian =
     bindE (read_bytes d byteOffset 8) (\<lambda>bs. Inr (bytes_int littleEndian bs))"

section \<open>DataViewExtensions.ts: 128-bit integers\<close>

definition MAX_U128_VALUE :: int where
  "MAX_U128_VALUE = 2 ^ 128 - 1"

definition SHIFT_64_BITS :: nat where
  "SHIFT_64_BITS = 64"

definition MASK_64_BITS :: int where
  "MASK_64_BITS = 0xffffffffffffffff"

definition setBigUint128 :: "dataview \<Rightarrow> int \<Rightarrow> int \<Rightarrow> bool \<Rightarrow> error + dataview" where
  "setBigUint128 this byteOffset v littleEndian =
     (let sanitizedValue = (if v > MAX_U128_VALUE then 0 else v) in
      if littleEndian then
        bindE (setBigUint64 this (byteOffset + 8) (drop_bit SHIFT_64_BITS sanitizedValue) littleEndian)
          (\<lambda>d. setBigUint64 d byteOffset (sanitizedValue AND MASK_64_BITS) littleEndian)
      else
        bindE (setBigUint64 this byteOffset (drop_bit SHIFT_64_BITS sanitizedValue) littleEndian)
          (\<lambda>d. setBigUint64 d (byteOffset + 8) (sanitizedValue AND MASK_64_BITS) littleEndian))"

definition getBigUint128 :: "dataview \<Rightarrow> int \<Rightarrow> bool \<Rightarrow> error + int" where
  "getBigUint128 this byteOffset littleEndian =
     (if littleEndian then
        bindE (getBigUint64 this (byteOffset + 8) littleEndian) (\<lambda>hi.
        bindE (getBigUint64 this byteOffset littleEndian) (\<lambda>lo.
        Inr (push_bit SHIFT_64_BITS hi + lo)))
      else
        bindE (getBigUint64 this byteOffset littleEndian) (\<lambda>hi.
        bindE (getBigUint64 this (byteOffset + 8) littleEndian) (\<lambda>lo.
        Inr (push_bit SHIFT_64_BITS hi + lo))))"

section \<open>JavaScript values\<close>

text \<open>
  The appenders are TypeScript, but each begins with a run-time check of the shape of its
  argument, so the argument is modelled as an untyped JavaScript value. A number is an
  IEEE double: a finite value (a real number; the doubles are some of them, and the two
  zeros are not told apart), an infinity or NaN. Objects are plain records of data
  properties, arrays are dense, and a \<open>Uuid\<close> instance wraps a 128-bit value.
\<close>

datatype number = NaN | PosInfinity | NegInfinity | Finite real

datatype jsval =
    JSUndefined
  | JSNull
  | JSBoolean bool
  | JSNumber number
  | JSBigInt int
  | JSString string
  | JSObject "(string \<times> jsval) list"
  | JSArray "jsval list"
  | JSArrayBuffer "byte list"
  | JSUuid "128 word"

datatype jstype = TUndefined | TObject | TBoolean | TNumber | TBigint | TString

fun typeof :: "jsval \<Rightarrow> jstype" where
  "typeof JSUndefined = TUndefined"
| "typeof JSNull = TObject"
| "typeof (JSBoolean b) = TBoolean"
| "typeof (JSNumber n) = TNumber"
| "typeof (JSBigInt i) = TBigint"
| "typeof (JSString s) = TString"
| "typeof (JSObject fs) = TObject"
| "typeof (JSArray xs) = TObject"
| "typeof (JSArrayBuffer bs) = TObject"
| "typeof (JSUuid u) = TObject"

text \<open>
  \<open>value.key\<close>: a \<open>TypeError\<close> on \<open>undefined\<close> and \<open>null\<close>, the property of an object,
  and \<open>undefined\<close> for a property that is not there. The code reads the properties
  \<open>red\<close>, \<open>green\<close>, \<open>blue\<close>, \<open>x\<close>, \<open>y\<close>, \<open>z\<close>, \<open>w\<close>, \<open>width\<close>, \<open>height\<close>, \<open>corner\<close>
  and \<open>scale\<close> this way, which no primitive value, array, buffer or \<open>Uuid\<close> has.
\<close>

fun getProp :: "jsval \<Rightarrow> string \<Rightarrow> error + jsval" where
  "getProp JSUndefined k = Inl TypeError"
| "getProp JSNull k = Inl TypeError"
| "getProp (JSObject fs) k = Inr (case map_of fs k of None \<Rightarrow> JSUndefined | Some x \<Rightarrow> x)"
| "getProp v k = Inr JSUndefined"

fun getPath :: "jsval \<Rightarrow> string list \<Rightarrow> error + jsval" where
  "getPath v [] = Inr v"
| "getPath v (k # ks) = bindE (getProp v k) (\<lambda>x. getPath x ks)"

definition typeof_is :: "error + jsval \<Rightarrow> jstype \<Rightarrow> error + bool" where
  "typeof_is m t = bindE m (\<lambda>x. Inr (typeof x = t))"

text \<open>\<open>a && b && ...\<close>: the operands are evaluated in order, up to the first that is false.\<close>

fun conj_seq :: "(error + bool) list \<Rightarrow> error + bool" where
  "conj_seq [] = Inr True"
| "conj_seq (c # cs) = bindE c (\<lambda>b. if b then conj_seq cs else Inr False)"

text \<open>\<open>Array.prototype.every\<close>, on a dense array.\<close>

fun every :: "(jsval \<Rightarrow> error + bool) \<Rightarrow> jsval list \<Rightarrow> error + bool" where
  "every f [] = Inr True"
| "every f (x # xs) = bindE (f x) (\<lambda>b. if b then every f xs else Inr False)"

definition Array_isArray :: "jsval \<Rightarrow> bool" where
  "Array_isArray v = (case v of JSArray xs \<Rightarrow> True | _ \<Rightarrow> False)"

text \<open>The elements of an array; the code asks for them after \<open>Array.isArray\<close> only.\<close>

definition elements :: "jsval \<Rightarrow> jsval list" where
  "elements v = (case v of JSArray xs \<Rightarrow> xs | _ \<Rightarrow> [])"

definition instanceof_ArrayBuffer :: "jsval \<Rightarrow> bool" where
  "instanceof_ArrayBuffer v = (case v of JSArrayBuffer bs \<Rightarrow> True | _ \<Rightarrow> False)"

definition instanceof_Uuid :: "jsval \<Rightarrow> bool" where
  "instanceof_Uuid v = (case v of JSUuid u \<Rightarrow> True | _ \<Rightarrow> False)"

text \<open>The bytes of an \<open>ArrayBuffer\<close>; the code asks for them after \<open>instanceof\<close> only.\<close>

definition arrayBufferBytes :: "jsval \<Rightarrow> byte list" where
  "arrayBufferBytes v = (case v of JSArrayBuffer bs \<Rightarrow> bs | _ \<Rightarrow> [])"

definition stringChars :: "jsval \<Rightarrow> string" where
  "stringChars v = (case v of JSString cs \<Rightarrow> cs | _ \<Rightarrow> [])"

text \<open>
  \<open>a <= b\<close> on numbers, and on a number and a bigint, which JavaScript compares by their
  mathematical values. Every comparison of the code stands to the right of the
  \<open>typeof\<close> test of its operand, so it is evaluated on a number or a bigint only; the
  other cases of \<open>numeric\<close> are the conversions of \<open>undefined\<close>, \<open>null\<close> and booleans
  (strings and objects, whose conversion parses text, are given NaN).
\<close>

fun number_le :: "number \<Rightarrow> number \<Rightarrow> bool" where
  "number_le NaN b = False"
| "number_le a NaN = False"
| "number_le NegInfinity b = True"
| "number_le a PosInfinity = True"
| "number_le PosInfinity b = False"
| "number_le a NegInfinity = False"
| "number_le (Finite a) (Finite b) = (a \<le> b)"

fun numeric :: "jsval \<Rightarrow> number" where
  "numeric (JSNumber n) = n"
| "numeric (JSBigInt i) = Finite (of_int i)"
| "numeric JSNull = Finite 0"
| "numeric (JSBoolean b) = Finite (if b then 1 else 0)"
| "numeric v = NaN"

definition js_le :: "jsval \<Rightarrow> jsval \<Rightarrow> bool" where
  "js_le a b = number_le (numeric a) (numeric b)"

definition le_E :: "error + jsval \<Rightarrow> error + jsval \<Rightarrow> error + bool" where
  "le_E ma mb = bindE ma (\<lambda>a. bindE mb (\<lambda>b. Inr (js_le a b)))"

text \<open>\<open>ToBoolean\<close>, the truth value of a condition.\<close>

fun ToBoolean :: "jsval \<Rightarrow> bool" where
  "ToBoolean JSUndefined = False"
| "ToBoolean JSNull = False"
| "ToBoolean (JSBoolean b) = b"
| "ToBoolean (JSNumber n) = (case n of NaN \<Rightarrow> False | Finite r \<Rightarrow> r \<noteq> 0 | _ \<Rightarrow> True)"
| "ToBoolean (JSBigInt i) = (i \<noteq> 0)"
| "ToBoolean (JSString cs) = (cs \<noteq> [])"
| "ToBoolean v = True"

text \<open>
  \<open>ToNumber\<close>, which the numeric setters of a \<open>DataView\<close> apply to their argument: a
  bigint is a \<open>TypeError\<close>. Every setter call of the code passes a number (strings and
  objects, whose conversion parses text, are given NaN).
\<close>

fun ToNumber :: "jsval \<Rightarrow> error + number" where
  "ToNumber (JSNumber n) = Inr n"
| "ToNumber JSUndefined = Inr NaN"
| "ToNumber JSNull = Inr (Finite 0)"
| "ToNumber (JSBoolean b) = Inr (Finite (if b then 1 else 0))"
| "ToNumber (JSBigInt i) = Inl TypeError"
| "ToNumber v = Inr NaN"

text \<open>
  \<open>ToBigInt\<close>, which \<open>setBigUint64\<close> applies to its argument. The code passes a bigint
  (a string, which would be parsed, is given the \<open>TypeError\<close> of the other values).
\<close>

fun ToBigInt :: "jsval \<Rightarrow> error + int" where
  "ToBigInt (JSBigInt i) = Inr i"
| "ToBigInt (JSBoolean b) = Inr (if b then 1 else 0)"
| "ToBigInt v = Inl TypeError"

text \<open>
  The integer that the unsigned integer setters store, before it is reduced modulo the
  width: NaN and the infinities give 0, a finite value is truncated towards zero.
\<close>

fun ToIntegerOrZero :: "number \<Rightarrow> int" where
  "ToIntegerOrZero (Finite r) = (if r < 0 then \<lceil>r\<rceil> else \<lfloor>r\<rfloor>)"
| "ToIntegerOrZero n = 0"

text \<open>
  What the code calls and the platform or a file outside \<open>src/\<close> provides, as parameters:
  the rounding of a number to the bits of an IEEE binary32 (\<open>DataView.setFloat32\<close>), the
  UTF-8 bytes of a string (\<open>TextEncoder.encode\<close>), and the packing of a quaternion.
\<close>

record platform =
  float32_bits :: "number \<Rightarrow> 32 word"
  TextEncoder_encode :: "string \<Rightarrow> byte list"
  packedQuat :: "jsval \<Rightarrow> 64 word"

text \<open>
  The setters of a \<open>DataView\<close>: the offset is converted first, then the value, and
  then the bytes are stored if they lie inside the view.
\<close>

definition setUint8 :: "dataview \<Rightarrow> int \<Rightarrow> jsval \<Rightarrow> error + dataview" where
  "setUint8 d byteOffset v =
     bindE (ToIndex byteOffset) (\<lambda>i. bindE (ToNumber v) (\<lambda>n.
     write_bytes d byteOffset (int_bytes True 1 (ToIntegerOrZero n))))"

definition setUint16 :: "dataview \<Rightarrow> int \<Rightarrow> jsval \<Rightarrow> bool \<Rightarrow> error + dataview" where
  "setUint16 d byteOffset v littleEndian =
     bindE (ToIndex byteOffset) (\<lambda>i. bindE (ToNumber v) (\<lambda>n.
     write_bytes d byteOffset (int_bytes littleEndian 2 (ToIntegerOrZero n))))"

definition setUint32 :: "dataview \<Rightarrow> int \<Rightarrow> jsval \<Rightarrow> bool \<Rightarrow> error + dataview" where
  "setUint32 d byteOffset v littleEndian =
     bindE (ToIndex byteOffset) (\<lambda>i. bindE (ToNumber v) (\<lambda>n.
     write_bytes d byteOffset (int_bytes littleEndian 4 (ToIntegerOrZero n))))"

definition setFloat32 :: "platform \<Rightarrow> dataview \<Rightarrow> int \<Rightarrow> jsval \<Rightarrow> bool \<Rightarrow> error + dataview" where
  "setFloat32 P d byteOffset v littleEndian =
     bindE (ToIndex byteOffset) (\<lambda>i. bindE (ToNumber v) (\<lambda>n.
     write_bytes d byteOffset (int_bytes littleEndian 4 (uint (float32_bits P n)))))"

text \<open>
  Modelled from the spec: \<open>UDT.ts\<close> is not under \<open>src/\<close>. "All scalar fields are
  little-endian except UUIDs, which serialize as 16 bytes big-endian"; the constants are
  the \<open>littleEndian\<close> argument of the \<open>DataView\<close> methods.
\<close>

definition LITTLE_ENDIAN :: bool where
  "LITTLE_ENDIAN = True"

definition BIG_ENDIAN :: bool where
  "BIG_ENDIAN = False"

text \<open>
  Modelled from the spec: \<open>Uuid.ts\<close> is not under \<open>src/\<close>. A UUID is a 128-bit value;
  \<open>value()\<close> is that value as a bigint and \<open>isNull()\<close> holds of the empty UUID, the
  value 0. Calling either on anything else is a \<open>TypeError\<close>.
\<close>

definition Uuid_value :: "jsval \<Rightarrow> error + int" where
  "Uuid_value v = (case v of JSUuid u \<Rightarrow> Inr (uint u) | _ \<Rightarrow> Inl TypeError)"

definition Uuid_isNull :: "jsval \<Rightarrow> error + bool" where
  "Uuid_isNull v = (case v of JSUuid u \<Rightarrow> Inr (u = 0) | _ \<Rightarrow> Inl TypeError)"

text \<open>
  Modelled from the spec: \<open>GLMHelpers.packOrientationQuatToBytes\<close> is not under \<open>src/\<close>.
  "Quaternions ship packed into 8 bytes"; the packing is floating-point arithmetic and
  is the parameter \<open>packedQuat\<close>, the 8 bytes from the first to the last as the bytes of
  a 64-bit value from the least significant on. They are stored with the setters of the
  \<open>DataView\<close>, at the position given.
\<close>

definition packOrientationQuatToBytes :: "platform \<Rightarrow> dataview \<Rightarrow> int \<Rightarrow> jsval \<Rightarrow> error + dataview" where
  "packOrientationQuatToBytes P d dataPosition quatInput =
     write_bytes d dataPosition (int_bytes True 8 (uint (packedQuat P quatInput)))"

section \<open>OctreePacketData.ts: the packet context\<close>

text \<open>
  Modelled from the spec: \<open>PropertyFlags.ts\<close> and \<open>EntityPropertyFlags.ts\<close> are not under
  \<open>src/\<close>. Property flags have the "semantics of a mathematical set over a closed
  ordered enumeration", with \<open>setHasProperty(id, bool)\<close> and \<open>getHasProperty(id)\<close>; a
  property identifier is its number. The two flag sets of a packet context are two
  objects.
\<close>

type_synonym EntityPropertyFlags = "nat set"

definition setHasProperty :: "nat \<Rightarrow> bool \<Rightarrow> EntityPropertyFlags \<Rightarrow> EntityPropertyFlags" where
  "setHasProperty flag b fs = (if b then insert flag fs else fs - {flag})"

definition getHasProperty :: "EntityPropertyFlags \<Rightarrow> nat \<Rightarrow> bool" where
  "getHasProperty fs flag = (flag \<in> fs)"

datatype AppendState = COMPLETED | PARTIAL | NONE

record OctreePacketContext =
  propertiesToWrite :: EntityPropertyFlags
  propertiesWritten :: EntityPropertyFlags
  propertyCount :: nat
  appendState :: AppendState

text \<open>
  What an appender can change: the packet data, the packet context, and the console,
  the list of the messages given to \<open>console.error\<close>.
\<close>

record js_state =
  data :: dataview
  packetContext :: OctreePacketContext
  console :: "string list"

definition console_error :: "string \<Rightarrow> js_state \<Rightarrow> js_state" where
  "console_error msg s = s\<lparr>console := console s @ [msg]\<rparr>"

text \<open>
  The three statements that follow the writes of every appender:
  \<open>propertiesToWrite.setHasProperty(flag, false)\<close>,
  \<open>propertiesWritten.setHasProperty(flag, true)\<close> and \<open>propertyCount += 1\<close>.
\<close>

definition propertyWritten :: "nat \<Rightarrow> js_state \<Rightarrow> js_state" where
  "propertyWritten flag s =
     s\<lparr>packetContext := (packetContext s)
         \<lparr>propertiesToWrite := setHasProperty flag False (propertiesToWrite (packetContext s)),
          propertiesWritten := setHasProperty flag True (propertiesWritten (packetContext s)),
          propertyCount := propertyCount (packetContext s) + 1\<rparr>\<rparr>"

text \<open>\<open>packetContext.appendState = AppendState.PARTIAL\<close>.\<close>

definition appendStatePartial :: "js_state \<Rightarrow> js_state" where
  "appendStatePartial s = s\<lparr>packetContext := (packetContext s)\<lparr>appendState := PARTIAL\<rparr>\<rparr>"

definition MAX_FLOAT32 :: real where
  "MAX_FLOAT32 = 340282349999999991754788743781432688640"

text \<open>
  \<open>MAX_FLOAT32\<close> is the double that the literal \<open>3.4028235e38\<close> of the code denotes,
  \<open>0x1.fffffe54daff8p+127\<close>.
\<close>

section \<open>OctreePacketData.ts: the validity checks\<close>

text \<open>The expression \<open>valid\<close> of each appender, in the order of the file.\<close>

definition validAACubeValue :: "jsval \<Rightarrow> error + bool" where
  "validAACubeValue v = conj_seq
     [typeof_is (getPath v [''corner'']) TObject,
      typeof_is (getPath v [''corner'', ''x'']) TNumber,
      typeof_is (getPath v [''corner'', ''y'']) TNumber,
      typeof_is (getPath v [''corner'', ''z'']) TNumber,
      typeof_is (getPath v [''scale'']) TNumber,
      le_E (Inr (JSNumber (Finite (- MAX_FLOAT32)))) (getPath v [''corner'', ''x'']),
      le_E (getPath v [''corner'', ''x'']) (Inr (JSNumber (Finite MAX_FLOAT32))),
      le_E (Inr (JSNumber (Finite (- MAX_FLOAT32)))) (getPath v [''corner'', ''y'']),
      le_E (getPath v [''corner'', ''y'']) (Inr (JSNumber (Finite MAX_FLOAT32))),
      le_E (Inr (JSNumber (Finite (- MAX_FLOAT32)))) (getPath v [''corner'', ''z'']),
      le_E (getPath v [''corner'', ''z'']) (Inr (JSNumber (Finite MAX_FLOAT32))),
      le_E (Inr (JSNumber (Finite 0))) (getPath v [''scale'']),
      le_E (getPath v [''scale'']) (Inr (JSNumber (Finite MAX_FLOAT32)))]"

definition validArrayBufferValue :: "jsval \<Rightarrow> error + bool" where
  "validArrayBufferValue v = Inr (instanceof_ArrayBuffer v)"

definition validBooleanArray :: "jsval \<Rightarrow> error + bool" where
  "validBooleanArray v = conj_seq
     [Inr (Array_isArray v),
      Inr (length (elements v) \<le> 0xffff),
      every (\<lambda>element. Inr (typeof element = TBoolean)) (elements v)]"

definition validBooleanValue :: "jsval \<Rightarrow> error + bool" where
  "validBooleanValue v = Inr (typeof v = TBoolean)"

definition validColorValue :: "jsval \<Rightarrow> error + bool" where
  "validColorValue v = conj_seq
     [typeof_is (getPath v [''red'']) TNumber,
      typeof_is (getPath v [''green'']) TNumber,
      typeof_is (getPath v [''blue'']) TNumber]"

definition validFloat32Value :: "jsval \<Rightarrow> error + bool" where
  "validFloat32Value v = conj_seq
     [Inr (typeof v = TNumber),
      Inr (js_le (JSNumber (Finite (- MAX_FLOAT32))) v),
      Inr (js_le v (JSNumber (Finite MAX_FLOAT32)))]"

definition validQuatArray :: "jsval \<Rightarrow> error + bool" where
  "validQuatArray v = conj_seq
     [Inr (Array_isArray v),
      Inr (length (elements v) \<le> 0xffff),
      every (\<lambda>element. conj_seq
         [Inr (typeof element = TObject),
          typeof_is (getPath element [''x'']) TNumber,
          typeof_is (getPath element [''y'']) TNumber,
          typeof_is (getPath element [''z'']) TNumber,
          typeof_is (getPath element [''w'']) TNumber]) (elements v)]"

definition validQuatValue :: "jsval \<Rightarrow> error + bool" where
  "validQuatValue v = conj_seq
     [typeof_is (getPath v [''x'']) TNumber,
      typeof_is (getPath v [''y'']) TNumber,
      typeof_is (getPath v [''z'']) TNumber,
      typeof_is (getPath v [''w'']) TNumber]"

definition validRectValue :: "jsval \<Rightarrow> error + bool" where
  "validRectValue v = conj_seq
     [typeof_is (getPath v [''x'']) TNumber,
      typeof_is (getPath v [''y'']) TNumber,
      typeof_is (getPath v [''width'']) TNumber,
      typeof_is (getPath v [''height'']) TNumber]"

definition validStringValue :: "jsval \<Rightarrow> error + bool" where
  "validStringValue v = Inr (typeof v = TString)"

definition validUint8Value :: "jsval \<Rightarrow> error + bool" where
  "validUint8Value v = conj_seq
     [Inr (typeof v = TNumber),
      Inr (js_le (JSNumber (Finite 0)) v),
      Inr (js_le v (JSNumber (Finite 0xff)))]"

definition validUint16Value :: "jsval \<Rightarrow> error + bool" where
  "validUint16Value v = conj_seq
     [Inr (typeof v = TNumber),
      Inr (js_le (JSNumber (Finite 0)) v),
      Inr (js_le v (JSNumber (Finite 0xffff)))]"

definition validUint32Value :: "jsval \<Rightarrow> error + bool" where
  "validUint32Value v = conj_seq
     [Inr (typeof v = TNumber),
      Inr (js_le (JSNumber (Finite 0)) v),
      Inr (js_le v (JSNumber (Finite 0xffffffff)))]"

definition validUint64Value :: "jsval \<Rightarrow> error + bool" where
  "validUint64Value v = conj_seq
     [Inr (typeof v = TBigint),
      Inr (js_le (JSNumber (Finite 0)) v),
      Inr (js_le v (JSBigInt 0xffffffffffffffff))]"

definition validUuidArray :: "jsval \<Rightarrow> error + bool" where
  "validUuidArray v = conj_seq
     [Inr (Array_isArray v),
      Inr (length (elements v) \<le> 0xffff),
      every (\<lambda>element. Inr (instanceof_Uuid element)) (elements v)]"

definition validUuidValue :: "jsval \<Rightarrow> error + bool" where
  "validUuidValue v = Inr (instanceof_Uuid v)"

definition validVec2Value :: "jsval \<Rightarrow> error + bool" where
  "validVec2Value v = conj_seq
     [typeof_is (getPath v [''x'']) TNumber,
      typeof_is (getPath v [''y'']) TNumber,
      le_E (Inr (JSNumber (Finite (- MAX_FLOAT32)))) (getPath v [''x'']),
      le_E (getPath v [''x'']) (Inr (JSNumber (Finite MAX_FLOAT32))),
      le_E (Inr (JSNumber (Finite (- MAX_FLOAT32)))) (getPath v [''y'']),
      le_E (getPath v [''y'']) (Inr (JSNumber (Finite MAX_FLOAT32)))]"

definition validVec3Array :: "jsval \<Rightarrow> error + bool" where
  "validVec3Array v = conj_seq
     [Inr (Array_isArray v),
      Inr (length (elements v) \<le> 0xffff),
      every (\<lambda>element. conj_seq
         [typeof_is (getPath element [''x'']) TNumber,
          typeof_is (getPath element [''y'']) TNumber,
          typeof_is (getPath element [''z'']) TNumber,
          le_E (Inr (JSNumber (Finite (- MAX_FLOAT32)))) (getPath element [''x'']),
          le_E (getPath element [''x'']) (Inr (JSNumber (Finite MAX_FLOAT32))),
          le_E (Inr (JSNumber (Finite (- MAX_FLOAT32)))) (getPath element [''y'']),
          le_E (getPath element [''y'']) (Inr (JSNumber (Finite MAX_FLOAT32))),
          le_E (Inr (JSNumber (Finite (- MAX_FLOAT32)))) (getPath element [''z'']),
          le_E (getPath element [''z'']) (Inr (JSNumber (Finite MAX_FLOAT32)))]) (elements v)]"

definition validVec3Value :: "jsval \<Rightarrow> error + bool" where
  "validVec3Value v = conj_seq
     [typeof_is (getPath v [''x'']) TNumber,
      typeof_is (getPath v [''y'']) TNumber,
      typeof_is (getPath v [''z'']) TNumber,
      le_E (Inr (JSNumber (Finite (- MAX_FLOAT32)))) (getPath v [''x'']),
      le_E (getPath v [''x'']) (Inr (JSNumber (Finite MAX_FLOAT32))),
      le_E (Inr (JSNumber (Finite (- MAX_FLOAT32)))) (getPath v [''y'']),
      le_E (getPath v [''y'']) (Inr (JSNumber (Finite MAX_FLOAT32))),
      le_E (Inr (JSNumber (Finite (- MAX_FLOAT32)))) (getPath v [''z'']),
      le_E (getPath v [''z'']) (Inr (JSNumber (Finite MAX_FLOAT32)))]"

section \<open>OctreePacketData.ts: the typed appenders\<close>

text \<open>
  Each appender takes the position to write at (an integer), the property flag, the value
  and, for some, the byte order; the packet data and the packet context are in the state.
  It returns the number of bytes written and the state it leaves, or the exception
  thrown.
\<close>

type_synonym append_result = "error + nat \<times> js_state"

definition appendAACubeValue :: "platform \<Rightarrow> int \<Rightarrow> nat \<Rightarrow> jsval \<Rightarrow> js_state \<Rightarrow> append_result" where
  "appendAACubeValue P dataPosition flag v s =
     bindE (validAACubeValue v) (\<lambda>valid.
     if \<not> valid then
       Inr (0, console_error ''[EntityServer] Cannot write invalid AACube value to packet!'' s)
     else
       (let NUM_BYTES = 16 in
        if dataPosition + int NUM_BYTES \<le> int (byteLength (data s)) then
          bindE (getPath v [''corner'', ''x'']) (\<lambda>x.
          bindE (setFloat32 P (data s) dataPosition x LITTLE_ENDIAN) (\<lambda>d1.
          bindE (getPath v [''corner'', ''y'']) (\<lambda>y.
          bindE (setFloat32 P d1 (dataPosition + 4) y LITTLE_ENDIAN) (\<lambda>d2.
          bindE (getPath v [''corner'', ''z'']) (\<lambda>z.
          bindE (setFloat32 P d2 (dataPosition + 8) z LITTLE_ENDIAN) (\<lambda>d3.
          bindE (getPath v [''scale'']) (\<lambda>sc.
          bindE (setFloat32 P d3 (dataPosition + 12) sc LITTLE_ENDIAN) (\<lambda>d4.
          Inr (NUM_BYTES, propertyWritten flag (s\<lparr>data := d4\<rparr>))))))))))
        else Inr (0, appendStatePartial s)))"

text \<open>
  The loop \<open>for (let i = 0; i < n; i += 1) { data.setUint8(startIndex + i, bytes[i]); }\<close>
  of \<open>appendArrayBufferValue\<close> and \<open>appendStringValue\<close>, on the bytes that are left and
  the position of the next one.
\<close>

fun setUint8Loop :: "dataview \<Rightarrow> int \<Rightarrow> byte list \<Rightarrow> error + dataview" where
  "setUint8Loop d index [] = Inr d"
| "setUint8Loop d index (b # bs) =
     bindE (setUint8 d index (JSNumber (Finite (real (unat b))))) (\<lambda>d'.
     setUint8Loop d' (index + 1) bs)"

definition appendArrayBufferValue :: "int \<Rightarrow> nat \<Rightarrow> jsval \<Rightarrow> js_state \<Rightarrow> append_result" where
  "appendArrayBufferValue dataPosition flag v s =
     bindE (validArrayBufferValue v) (\<lambda>valid.
     if \<not> valid then
       Inr (0, console_error ''[EntityServer] Cannot write invalid ArrayBuffer value to packet!'' s)
     else
       (let NUM_BYTES = 2 + length (arrayBufferBytes v) in
        if dataPosition + int NUM_BYTES \<le> int (byteLength (data s)) then
          bindE (setUint16 (data s) dataPosition
                   (JSNumber (Finite (real (length (arrayBufferBytes v))))) LITTLE_ENDIAN) (\<lambda>d1.
          (let startIndex = dataPosition + 2 in
           bindE (setUint8Loop d1 startIndex (arrayBufferBytes v)) (\<lambda>d2.
           Inr (NUM_BYTES, propertyWritten flag (s\<lparr>data := d2\<rparr>)))))
        else Inr (0, appendStatePartial s)))"

text \<open>
  The loop of \<open>appendBooleanArray\<close>, on the elements that are left: \<open>i === length - 1\<close>
  holds at the last one, and \<open>bitNo\<close> is the variable \<open>bit\<close>. \<open>current\<close> stays below 256, where \<open>|=\<close> and \<open><<\<close> on
  numbers are those of the integers.
\<close>

fun booleanArrayLoop :: "dataview \<Rightarrow> int \<Rightarrow> nat \<Rightarrow> int \<Rightarrow> jsval list \<Rightarrow> error + dataview" where
  "booleanArrayLoop d index bitNo current [] = Inr d"
| "booleanArrayLoop d index bitNo current (x # rest) =
     (let current1 = (if ToBoolean x then current OR push_bit bitNo 1 else current);
          bitNo1 = (bitNo + 1) mod 8
      in if bitNo1 = 0 \<or> rest = [] then
           bindE (setUint8 d index (JSNumber (Finite (of_int current1)))) (\<lambda>d'.
           booleanArrayLoop d' (index + 1) bitNo1 0 rest)
         else booleanArrayLoop d index bitNo1 current1 rest)"

definition appendBooleanArray :: "int \<Rightarrow> nat \<Rightarrow> jsval \<Rightarrow> js_state \<Rightarrow> append_result" where
  "appendBooleanArray dataPosition flag v s =
     bindE (validBooleanArray v) (\<lambda>valid.
     if \<not> valid then
       Inr (0, console_error ''[EntityServer] Cannot write invalid boolean array to packet!'' s)
     else
       (let NUM_BYTES = 2 + nat \<lceil>real (length (elements v)) / 8\<rceil> in
        if dataPosition + int NUM_BYTES \<le> int (byteLength (data s)) then
          bindE (setUint16 (data s) dataPosition
                   (JSNumber (Finite (real (length (elements v))))) LITTLE_ENDIAN) (\<lambda>d1.
          (let index = dataPosition + 2 in
           bindE (booleanArrayLoop d1 index 0 0 (elements v)) (\<lambda>d2.
           Inr (NUM_BYTES, propertyWritten flag (s\<lparr>data := d2\<rparr>)))))
        else Inr (0, appendStatePartial s)))"

definition appendBooleanValue :: "int \<Rightarrow> nat \<Rightarrow> jsval \<Rightarrow> js_state \<Rightarrow> append_result" where
  "appendBooleanValue dataPosition flag v s =
     bindE (validBooleanValue v) (\<lambda>valid.
     if \<not> valid then
       Inr (0, console_error ''[EntityServer] Cannot write invalid boolean value to packet!'' s)
     else
       (let NUM_BYTES = 1 in
        if dataPosition + int NUM_BYTES \<le> int (byteLength (data s)) then
          bindE (setUint8 (data s) dataPosition (JSNumber (Finite (if ToBoolean v then 1 else 0)))) (\<lambda>d1.
          Inr (NUM_BYTES, propertyWritten flag (s\<lparr>data := d1\<rparr>)))
        else Inr (0, appendStatePartial s)))"

definition appendColorValue :: "int \<Rightarrow> nat \<Rightarrow> jsval \<Rightarrow> js_state \<Rightarrow> append_result" where
  "appendColorValue dataPosition flag v s =
     bindE (validColorValue v) (\<lambda>valid.
     if \<not> valid then
       Inr (0, console_error ''[EntityServer] Cannot write invalid color value to packet!'' s)
     else
       (let NUM_BYTES = 3 in
        if dataPosition + int NUM_BYTES \<le> int (byteLength (data s)) then
          bindE (getPath v [''red'']) (\<lambda>r.
          bindE (setUint8 (data s) dataPosition r) (\<lambda>d1.
          bindE (getPath v [''green'']) (\<lambda>g.
          bindE (setUint8 d1 (dataPosition + 1) g) (\<lambda>d2.
          bindE (getPath v [''blue'']) (\<lambda>b.
          bindE (setUint8 d2 (dataPosition + 2) b) (\<lambda>d3.
          Inr (NUM_BYTES, propertyWritten flag (s\<lparr>data := d3\<rparr>))))))))
        else Inr (0, appendStatePartial s)))"

definition appendFloat32Value ::
  "platform \<Rightarrow> int \<Rightarrow> nat \<Rightarrow> jsval \<Rightarrow> bool \<Rightarrow> js_state \<Rightarrow> append_result" where
  "appendFloat32Value P dataPosition flag v littleEndian s =
     bindE (validFloat32Value v) (\<lambda>valid.
     if \<not> valid then
       Inr (0, console_error ''[EntityServer] Cannot write invalid float32 value to packet!'' s)
     else
       (let NUM_BYTES = 4 in
        if dataPosition + int NUM_BYTES \<le> int (byteLength (data s)) then
          bindE (setFloat32 P (data s) dataPosition v littleEndian) (\<lambda>d1.
          Inr (NUM_BYTES, propertyWritten flag (s\<lparr>data := d1\<rparr>)))
        else Inr (0, appendStatePartial s)))"

text \<open>The loop \<open>for (const element of value)\<close> of \<open>appendQuatArray\<close>.\<close>

fun quatArrayLoop :: "platform \<Rightarrow> dataview \<Rightarrow> int \<Rightarrow> jsval list \<Rightarrow> error + dataview" where
  "quatArrayLoop P d index [] = Inr d"
| "quatArrayLoop P d index (element # rest) =
     bindE (packOrientationQuatToBytes P d index element) (\<lambda>d'.
     quatArrayLoop P d' (index + 8) rest)"

definition appendQuatArray :: "platform \<Rightarrow> int \<Rightarrow> nat \<Rightarrow> jsval \<Rightarrow> js_state \<Rightarrow> append_result" where
  "appendQuatArray P dataPosition flag v s =
     bindE (validQuatArray v) (\<lambda>valid.
     if \<not> valid then
       Inr (0, console_error ''[EntityServer] Cannot write invalid quat array to packet!'' s)
     else
       (let NUM_BYTES = 2 + length (elements v) * 8 in
        if dataPosition + int NUM_BYTES \<le> int (byteLength (data s)) then
          bindE (setUint16 (data s) dataPosition
                   (JSNumber (Finite (real (length (elements v))))) LITTLE_ENDIAN) (\<lambda>d1.
          (let index = dataPosition + 2 in
           bindE (quatArrayLoop P d1 index (elements v)) (\<lambda>d2.
           Inr (NUM_BYTES, propertyWritten flag (s\<lparr>data := d2\<rparr>)))))
        else Inr (0, appendStatePartial s)))"

definition appendQuatValue :: "platform \<Rightarrow> int \<Rightarrow> nat \<Rightarrow> jsval \<Rightarrow> js_state \<Rightarrow> append_result" where
  "appendQuatValue P dataPosition flag v s =
     bindE (validQuatValue v) (\<lambda>valid.
     if \<not> valid then
       Inr (0, console_error ''[EntityServer] Cannot write invalid quat value to packet!'' s)
     else
       (let NUM_BYTES = 8 in
        if dataPosition + int NUM_BYTES \<le> int (byteLength (data s)) then
          bindE (packOrientationQuatToBytes P (data s) dataPosition v) (\<lambda>d1.
          Inr (NUM_BYTES, propertyWritten flag (s\<lparr>data := d1\<rparr>)))
        else Inr (0, appendStatePartial s)))"

definition appendRectValue :: "int \<Rightarrow> nat \<Rightarrow> jsval \<Rightarrow> js_state \<Rightarrow> append_result" where
  "appendRectValue dataPosition flag v s =
     bindE (validRectValue v) (\<lambda>valid.
     if \<not> valid then
       Inr (0, console_error ''[EntityServer] Cannot write invalid rect value to packet!'' s)
     else
       (let NUM_BYTES = 16 in
        if dataPosition + int NUM_BYTES \<le> int (byteLength (data s)) then
          bindE (getPath v [''x'']) (\<lambda>x.
          bindE (setUint32 (data s) dataPosition x LITTLE_ENDIAN) (\<lambda>d1.
          bindE (getPath v [''y'']) (\<lambda>y.
          bindE (setUint32 d1 (dataPosition + 4) y LITTLE_ENDIAN) (\<lambda>d2.
          bindE (getPath v [''width'']) (\<lambda>w.
          bindE (setUint32 d2 (dataPosition + 8) w LITTLE_ENDIAN) (\<lambda>d3.
          bindE (getPath v [''height'']) (\<lambda>h.
          bindE (setUint32 d3 (dataPosition + 12) h LITTLE_ENDIAN) (\<lambda>d4.
          Inr (NUM_BYTES, propertyWritten flag (s\<lparr>data := d4\<rparr>))))))))))
        else Inr (0, appendStatePartial s)))"

definition appendStringValue :: "platform \<Rightarrow> int \<Rightarrow> nat \<Rightarrow> jsval \<Rightarrow> js_state \<Rightarrow> append_result" where
  "appendStringValue P dataPosition flag v s =
     bindE (validStringValue v) (\<lambda>valid.
     if \<not> valid then
       Inr (0, console_error ''[EntityServer] Cannot write invalid string value to packet!'' s)
     else
       (let utf8 = TextEncoder_encode P (stringChars v);
            NUM_BYTES = 2 + length utf8 in
        if dataPosition + int NUM_BYTES \<le> int (byteLength (data s)) then
          bindE (setUint16 (data s) dataPosition (JSNumber (Finite (real (length utf8)))) LITTLE_ENDIAN) (\<lambda>d1.
          (let startIndex = dataPosition + 2 in
           bindE (setUint8Loop d1 startIndex utf8) (\<lambda>d2.
           Inr (NUM_BYTES, propertyWritten flag (s\<lparr>data := d2\<rparr>)))))
        else Inr (0, appendStatePartial s)))"

definition appendUint8Value :: "int \<Rightarrow> nat \<Rightarrow> jsval \<Rightarrow> js_state \<Rightarrow> append_result" where
  "appendUint8Value dataPosition flag v s =
     bindE (validUint8Value v) (\<lambda>valid.
     if \<not> valid then
       Inr (0, console_error ''[EntityServer] Cannot write invalid uint8 value to packet!'' s)
     else
       (let NUM_BYTES = 1 in
        if dataPosition + int NUM_BYTES \<le> int (byteLength (data s)) then
          bindE (setUint8 (data s) dataPosition v) (\<lambda>d1.
          Inr (NUM_BYTES, propertyWritten flag (s\<lparr>data := d1\<rparr>)))
        else Inr (0, appendStatePartial s)))"

definition appendUint16Value :: "int \<Rightarrow> nat \<Rightarrow> jsval \<Rightarrow> bool \<Rightarrow> js_state \<Rightarrow> append_result" where
  "appendUint16Value dataPosition flag v littleEndian s =
     bindE (validUint16Value v) (\<lambda>valid.
     if \<not> valid then
       Inr (0, console_error ''[EntityServer] Cannot write invalid uint16 value to packet!'' s)
     else
       (let NUM_BYTES = 2 in
        if dataPosition + int NUM_BYTES \<le> int (byteLength (data s)) then
          bindE (setUint16 (data s) dataPosition v littleEndian) (\<lambda>d1.
          Inr (NUM_BYTES, propertyWritten flag (s\<lparr>data := d1\<rparr>)))
        else Inr (0, appendStatePartial s)))"

definition appendUint32Value :: "int \<Rightarrow> nat \<Rightarrow> jsval \<Rightarrow> bool \<Rightarrow> js_state \<Rightarrow> append_result" where
  "appendUint32Value dataPosition flag v littleEndian s =
     bindE (validUint32Value v) (\<lambda>valid.
     if \<not> valid then
       Inr (0, console_error ''[EntityServer] Cannot write invalid uint32 value to packet!'' s)
     else
       (let NUM_BYTES = 4 in
        if dataPosition + int NUM_BYTES \<le> int (byteLength (data s)) then
          bindE (setUint32 (data s) dataPosition v littleEndian) (\<lambda>d1.
          Inr (NUM_BYTES, propertyWritten flag (s\<lparr>data := d1\<rparr>)))
        else Inr (0, appendStatePartial s)))"

definition appendUint64Value :: "int \<Rightarrow> nat \<Rightarrow> jsval \<Rightarrow> bool \<Rightarrow> js_state \<Rightarrow> append_result" where
  "appendUint64Value dataPosition flag v littleEndian s =
     bindE (validUint64Value v) (\<lambda>valid.
     if \<not> valid then
       Inr (0, console_error ''[EntityServer] Cannot write invalid uint64 value to packet!'' s)
     else
       (let NUM_BYTES = 8 in
        if dataPosition + int NUM_BYTES \<le> int (byteLength (data s)) then
          bindE (ToBigInt v) (\<lambda>i.
          bindE (setBigUint64 (data s) dataPosition i littleEndian) (\<lambda>d1.
          Inr (NUM_BYTES, propertyWritten flag (s\<lparr>data := d1\<rparr>))))
        else Inr (0, appendStatePartial s)))"

text \<open>The loop \<open>value.forEach((uuid) => ...)\<close> of \<open>appendUuidArray\<close>.\<close>

fun uuidArrayLoop :: "dataview \<Rightarrow> int \<Rightarrow> jsval list \<Rightarrow> error + dataview" where
  "uuidArrayLoop d index [] = Inr d"
| "uuidArrayLoop d index (uuid # rest) =
     bindE (Uuid_value uuid) (\<lambda>u.
     bindE (setBigUint128 d index u BIG_ENDIAN) (\<lambda>d'.
     uuidArrayLoop d' (index + 16) rest))"

definition appendUuidArray :: "int \<Rightarrow> nat \<Rightarrow> jsval \<Rightarrow> js_state \<Rightarrow> append_result" where
  "appendUuidArray dataPosition flag v s =
     bindE (validUuidArray v) (\<lambda>valid.
     if \<not> valid then
       Inr (0, console_error ''[EntityServer] Cannot write invalid UUID array to packet!'' s)
     else
       (let NUM_BYTES = 2 + length (elements v) * 16 in
        if dataPosition + int NUM_BYTES \<le> int (byteLength (data s)) then
          bindE (setUint16 (data s) dataPosition
                   (JSNumber (Finite (real (length (elements v))))) LITTLE_ENDIAN) (\<lambda>d1.
          (let index = dataPosition + 2 in
           bindE (uuidArrayLoop d1 index (elements v)) (\<lambda>d2.
           Inr (NUM_BYTES, propertyWritten flag (s\<lparr>data := d2\<rparr>)))))
        else Inr (0, appendStatePartial s)))"

definition appendUuidValue :: "int \<Rightarrow> nat \<Rightarrow> jsval \<Rightarrow> js_state \<Rightarrow> append_result" where
  "appendUuidValue dataPosition flag v s =
     bindE (validUuidValue v) (\<lambda>valid.
     if \<not> valid then
       Inr (0, console_error ''[EntityServer] Cannot write invalid UUID value to packet!'' s)
     else
       bindE (Uuid_isNull v) (\<lambda>isNull.
       if isNull then
         (let NUM_BYTES = 2 in
          if dataPosition + int NUM_BYTES \<le> int (byteLength (data s)) then
            bindE (setUint16 (data s) dataPosition (JSNumber (Finite 0)) LITTLE_ENDIAN) (\<lambda>d1.
            Inr (NUM_BYTES, propertyWritten flag (s\<lparr>data := d1\<rparr>)))
          else Inr (0, appendStatePartial s))
       else
         (let NUM_LENGTH_BYTES = 2; NUM_VALUE_BYTES = 16 in
          if dataPosition + int NUM_LENGTH_BYTES + int NUM_VALUE_BYTES \<le> int (byteLength (data s)) then
            bindE (setUint16 (data s) dataPosition
                     (JSNumber (Finite (real NUM_VALUE_BYTES))) LITTLE_ENDIAN) (\<lambda>d1.
            bindE (Uuid_value v) (\<lambda>u.
            bindE (setBigUint128 d1 (dataPosition + int NUM_LENGTH_BYTES) u BIG_ENDIAN) (\<lambda>d2.
            Inr (NUM_LENGTH_BYTES + NUM_VALUE_BYTES, propertyWritten flag (s\<lparr>data := d2\<rparr>)))))
          else Inr (0, appendStatePartial s))))"

definition appendVec2Value :: "platform \<Rightarrow> int \<Rightarrow> nat \<Rightarrow> jsval \<Rightarrow> js_state \<Rightarrow> append_result" where
  "appendVec2Value P dataPosition flag v s =
     bindE (validVec2Value v) (\<lambda>valid.
     if \<not> valid then
       Inr (0, console_error ''[EntityServer] Cannot write invalid vec2 value to packet!'' s)
     else
       (let NUM_BYTES = 8 in
        if dataPosition + int NUM_BYTES \<le> int (byteLength (data s)) then
          bindE (getPath v [''x'']) (\<lambda>x.
          bindE (setFloat32 P (data s) dataPosition x LITTLE_ENDIAN) (\<lambda>d1.
          bindE (getPath v [''y'']) (\<lambda>y.
          bindE (setFloat32 P d1 (dataPosition + 4) y LITTLE_ENDIAN) (\<lambda>d2.
          Inr (NUM_BYTES, propertyWritten flag (s\<lparr>data := d2\<rparr>))))))
        else Inr (0, appendStatePartial s)))"

text \<open>The loop \<open>value.forEach((element) => ...)\<close> of \<open>appendVec3Array\<close>.\<close>

fun vec3ArrayLoop :: "platform \<Rightarrow> dataview \<Rightarrow> int \<Rightarrow> jsval list \<Rightarrow> error + dataview" where
  "vec3ArrayLoop P d index [] = Inr d"
| "vec3ArrayLoop P d index (element # rest) =
     bindE (getPath element [''x'']) (\<lambda>x.
     bindE (setFloat32 P d index x LITTLE_ENDIAN) (\<lambda>d1.
     bindE (getPath element [''y'']) (\<lambda>y.
     bindE (setFloat32 P d1 (index + 4) y LITTLE_ENDIAN) (\<lambda>d2.
     bindE (getPath element [''z'']) (\<lambda>z.
     bindE (setFloat32 P d2 (index + 8) z LITTLE_ENDIAN) (\<lambda>d3.
     vec3ArrayLoop P d3 (index + 12) rest))))))"

definition appendVec3Array :: "platform \<Rightarrow> int \<Rightarrow> nat \<Rightarrow> jsval \<Rightarrow> js_state \<Rightarrow> append_result" where
  "appendVec3Array P dataPosition flag v s =
     bindE (validVec3Array v) (\<lambda>valid.
     if \<not> valid then
       Inr (0, console_error ''[EntityServer] Cannot write invalid vec3 array to packet!'' s)
     else
       (let NUM_BYTES = 2 + length (elements v) * 12 in
        if dataPosition + int NUM_BYTES \<le> int (byteLength (data s)) then
          bindE (setUint16 (data s) dataPosition
                   (JSNumber (Finite (real (length (elements v))))) LITTLE_ENDIAN) (\<lambda>d1.
          (let index = dataPosition + 2 in
           bindE (vec3ArrayLoop P d1 index (elements v)) (\<lambda>d2.
           Inr (NUM_BYTES, propertyWritten flag (s\<lparr>data := d2\<rparr>)))))
        else Inr (0, appendStatePartial s)))"

definition appendVec3Value :: "platform \<Rightarrow> int \<Rightarrow> nat \<Rightarrow> jsval \<Rightarrow> js_state \<Rightarrow> append_result" where
  "appendVec3Value P dataPosition flag v s =
     bindE (validVec3Value v) (\<lambda>valid.
     if \<not> valid then
       Inr (0, console_error ''[EntityServer] Cannot write invalid vec3 value to packet!'' s)
     else
       (let NUM_BYTES = 12 in
        if dataPosition + int NUM_BYTES \<le> int (byteLength (data s)) then
          bindE (getPath v [''x'']) (\<lambda>x.
          bindE (setFloat32 P (data s) dataPosition x LITTLE_ENDIAN) (\<lambda>d1.
          bindE (getPath v [''y'']) (\<lambda>y.
          bindE (setFloat32 P d1 (dataPosition + 4) y LITTLE_ENDIAN) (\<lambda>d2.
          bindE (getPath v [''z'']) (\<lambda>z.
          bindE (setFloat32 P d2 (dataPosition + 8) z LITTLE_ENDIAN) (\<lambda>d3.
          Inr (NUM_BYTES, propertyWritten flag (s\<lparr>data := d3\<rparr>))))))))
        else Inr (0, appendStatePartial s)))"

section \<open>The appenders as one family\<close>

text \<open>
  A name for each typed appender (with the byte order, for those that take it), the call
  of the appender of that name and its validity check. These are not functions of the
  code: they let a statement range over every appender.
\<close>

datatype appender =
    AACubeValue | ArrayBufferValue | BooleanArray | BooleanValue | ColorValue
  | Float32Value bool | QuatArray | QuatValue | RectValue | StringValue
  | Uint8Value | Uint16Value bool | Uint32Value bool | Uint64Value bool
  | UuidArray | UuidValue | Vec2Value | Vec3Array | Vec3Value

fun appendValue :: "platform \<Rightarrow> appender \<Rightarrow> int \<Rightarrow> nat \<Rightarrow> jsval \<Rightarrow> js_state \<Rightarrow> append_result" where
  "appendValue P AACubeValue p f v s = appendAACubeValue P p f v s"
| "appendValue P ArrayBufferValue p f v s = appendArrayBufferValue p f v s"
| "appendValue P BooleanArray p f v s = appendBooleanArray p f v s"
| "appendValue P BooleanValue p f v s = appendBooleanValue p f v s"
| "appendValue P ColorValue p f v s = appendColorValue p f v s"
| "appendValue P (Float32Value le) p f v s = appendFloat32Value P p f v le s"
| "appendValue P QuatArray p f v s = appendQuatArray P p f v s"
| "appendValue P QuatValue p f v s = appendQuatValue P p f v s"
| "appendValue P RectValue p f v s = appendRectValue p f v s"
| "appendValue P StringValue p f v s = appendStringValue P p f v s"
| "appendValue P Uint8Value p f v s = appendUint8Value p f v s"
| "appendValue P (Uint16Value le) p f v s = appendUint16Value p f v le s"
| "appendValue P (Uint32Value le) p f v s = appendUint32Value p f v le s"
| "appendValue P (Uint64Value le) p f v s = appendUint64Value p f v le s"
| "appendValue P UuidArray p f v s = appendUuidArray p f v s"
| "appendValue P UuidValue p f v s = appendUuidValue p f v s"
| "appendValue P Vec2Value p f v s = appendVec2Value P p f v s"
| "appendValue P Vec3Array p f v s = appendVec3Array P p f v s"
| "appendValue P Vec3Value p f v s = appendVec3Value P p f v s"

fun validityCheck :: "appender \<Rightarrow> jsval \<Rightarrow> error + bool" where
  "validityCheck AACubeValue v = validAACubeValue v"
| "validityCheck ArrayBufferValue v = validArrayBufferValue v"
| "validityCheck BooleanArray v = validBooleanArray v"
| "validityCheck BooleanValue v = validBooleanValue v"
| "validityCheck ColorValue v = validColorValue v"
| "validityCheck (Float32Value le) v = validFloat32Value v"
| "validityCheck QuatArray v = validQuatArray v"
| "validityCheck QuatValue v = validQuatValue v"
| "validityCheck RectValue v = validRectValue v"
| "validityCheck StringValue v = validStringValue v"
| "validityCheck Uint8Value v = validUint8Value v"
| "validityCheck (Uint16Value le) v = validUint16Value v"
| "validityCheck (Uint32Value le) v = validUint32Value v"
| "validityCheck (Uint64Value le) v = validUint64Value v"
| "validityCheck UuidArray v = validUuidArray v"
| "validityCheck UuidValue v = validUuidValue v"
| "validityCheck Vec2Value v = validVec2Value v"
| "validityCheck Vec3Array v = validVec3Array v"
| "validityCheck Vec3Value v = validVec3Value v"

text \<open>
  The serialized size of a value, in the words of the specification: "bool(1), u8(1),
  u16(2), u32(4), u64(8), f32(4), color r/g/b(3), vec2(8), vec3(12), quat-packed(8),
  rect x,y,w,h(16), AACube corner+scale(16), string(2-byte length + utf-8), arbitrary
  byte-array(2-byte length + bytes), quat array(2 + 8 n), vec3 array(2 + 12 n),
  UUID(variable: empty UUID encodes as 2-byte length 0; non-null as length 16 then 16
  big-endian bytes), UUID array(2 + 16 n)". The specification has no size for an array
  of booleans; it is the 2-byte length and one bit for each element, in whole bytes.
\<close>

fun serializedSize :: "platform \<Rightarrow> appender \<Rightarrow> jsval \<Rightarrow> nat" where
  "serializedSize P BooleanValue v = 1"
| "serializedSize P Uint8Value v = 1"
| "serializedSize P (Uint16Value le) v = 2"
| "serializedSize P (Uint32Value le) v = 4"
| "serializedSize P (Uint64Value le) v = 8"
| "serializedSize P (Float32Value le) v = 4"
| "serializedSize P ColorValue v = 3"
| "serializedSize P Vec2Value v = 8"
| "serializedSize P Vec3Value v = 12"
| "serializedSize P QuatValue v = 8"
| "serializedSize P RectValue v = 16"
| "serializedSize P AACubeValue v = 16"
| "serializedSize P StringValue v = 2 + length (TextEncoder_encode P (stringChars v))"
| "serializedSize P ArrayBufferValue v = 2 + length (arrayBufferBytes v)"
| "serializedSize P QuatArray v = 2 + 8 * length (elements v)"
| "serializedSize P Vec3Array v = 2 + 12 * length (elements v)"
| "serializedSize P UuidValue v = (if v = JSUuid 0 then 2 else 18)"
| "serializedSize P UuidArray v = 2 + 16 * length (elements v)"
| "serializedSize P BooleanArray v = 2 + (length (elements v) + 7) div 8"

text \<open>
  The serialized bytes of a value, stated apart from the appenders, in the layout of the
  specification: "All scalar fields are little-endian except UUIDs, which serialize as
  16 bytes big-endian", "Quaternions ship packed into 8 bytes", and the fields in the
  order of the list of the sizes ("color r/g/b", "rect x,y,w,h", "AACube corner+scale",
  "string(2-byte length + utf-8)", the arrays as their \<open>u16\<close> count and their elements in
  order). The appenders of the integers and of the floats take the byte order as an
  argument. A number is the integer or the float32 that the \<open>DataView\<close> setter of its
  width makes of it (an unsigned integer modulo its width).
\<close>

definition propertyNumber :: "jsval \<Rightarrow> string list \<Rightarrow> number" where
  "propertyNumber v path = (case getPath v path of Inr x \<Rightarrow> numeric x | Inl e \<Rightarrow> NaN)"

definition uintBytes :: "bool \<Rightarrow> nat \<Rightarrow> number \<Rightarrow> byte list" where
  "uintBytes littleEndian n x = int_bytes littleEndian n (ToIntegerOrZero x)"

definition float32Bytes :: "platform \<Rightarrow> bool \<Rightarrow> number \<Rightarrow> byte list" where
  "float32Bytes P littleEndian x = int_bytes littleEndian 4 (uint (float32_bits P x))"

definition countBytes :: "nat \<Rightarrow> byte list" where
  "countBytes n = int_bytes LITTLE_ENDIAN 2 (int n)"

definition quatBytes :: "platform \<Rightarrow> jsval \<Rightarrow> byte list" where
  "quatBytes P q = int_bytes True 8 (uint (packedQuat P q))"

definition vec3Bytes :: "platform \<Rightarrow> jsval \<Rightarrow> byte list" where
  "vec3Bytes P v =
     float32Bytes P LITTLE_ENDIAN (propertyNumber v [''x'']) @
     float32Bytes P LITTLE_ENDIAN (propertyNumber v [''y'']) @
     float32Bytes P LITTLE_ENDIAN (propertyNumber v [''z''])"

definition uuidBytes :: "jsval \<Rightarrow> byte list" where
  "uuidBytes v = (case v of JSUuid u \<Rightarrow> int_bytes BIG_ENDIAN 16 (uint u) | _ \<Rightarrow> [])"

definition bigintOf :: "jsval \<Rightarrow> int" where
  "bigintOf v = (case v of JSBigInt i \<Rightarrow> i | _ \<Rightarrow> 0)"

text \<open>
  An array of booleans is packed eight to a byte, the first of the eight in the least
  significant bit; the last byte holds the elements that are left. (The specification
  has no layout for it.)
\<close>

fun bitsValue :: "jsval list \<Rightarrow> int" where
  "bitsValue [] = 0"
| "bitsValue (x # xs) = (if ToBoolean x then 1 else 0) + 2 * bitsValue xs"

function packedBooleans :: "jsval list \<Rightarrow> byte list" where
  "packedBooleans xs =
     (if xs = [] then [] else word_of_int (bitsValue (take 8 xs)) # packedBooleans (drop 8 xs))"
  by pat_completeness auto
termination
  by (relation "measure length") auto

declare packedBooleans.simps [simp del]

fun serializedBytes :: "platform \<Rightarrow> appender \<Rightarrow> jsval \<Rightarrow> byte list" where
  "serializedBytes P BooleanValue v = uintBytes True 1 (Finite (if ToBoolean v then 1 else 0))"
| "serializedBytes P Uint8Value v = uintBytes True 1 (numeric v)"
| "serializedBytes P (Uint16Value le) v = uintBytes le 2 (numeric v)"
| "serializedBytes P (Uint32Value le) v = uintBytes le 4 (numeric v)"
| "serializedBytes P (Uint64Value le) v = int_bytes le 8 (bigintOf v)"
| "serializedBytes P (Float32Value le) v = float32Bytes P le (numeric v)"
| "serializedBytes P ColorValue v =
     uintBytes True 1 (propertyNumber v [''red'']) @
     uintBytes True 1 (propertyNumber v [''green'']) @
     uintBytes True 1 (propertyNumber v [''blue''])"
| "serializedBytes P Vec2Value v =
     float32Bytes P LITTLE_ENDIAN (propertyNumber v [''x'']) @
     float32Bytes P LITTLE_ENDIAN (propertyNumber v [''y''])"
| "serializedBytes P Vec3Value v = vec3Bytes P v"
| "serializedBytes P QuatValue v = quatBytes P v"
| "serializedBytes P RectValue v =
     uintBytes LITTLE_ENDIAN 4 (propertyNumber v [''x'']) @
     uintBytes LITTLE_ENDIAN 4 (propertyNumber v [''y'']) @
     uintBytes LITTLE_ENDIAN 4 (propertyNumber v [''width'']) @
     uintBytes LITTLE_ENDIAN 4 (propertyNumber v [''height''])"
| "serializedBytes P AACubeValue v =
     float32Bytes P LITTLE_ENDIAN (propertyNumber v [''corner'', ''x'']) @
     float32Bytes P LITTLE_ENDIAN (propertyNumber v [''corner'', ''y'']) @
     float32Bytes P LITTLE_ENDIAN (propertyNumber v [''corner'', ''z'']) @
     float32Bytes P LITTLE_ENDIAN (propertyNumber v [''scale''])"
| "serializedBytes P StringValue v =
     countBytes (length (TextEncoder_encode P (stringChars v))) @ TextEncoder_encode P (stringChars v)"
| "serializedBytes P ArrayBufferValue v =
     countBytes (length (arrayBufferBytes v)) @ arrayBufferBytes v"
| "serializedBytes P QuatArray v =
     countBytes (length (elements v)) @ concat (map (quatBytes P) (elements v))"
| "serializedBytes P Vec3Array v =
     countBytes (length (elements v)) @ concat (map (vec3Bytes P) (elements v))"
| "serializedBytes P UuidValue v =
     (if v = JSUuid 0 then countBytes 0 else countBytes 16 @ uuidBytes v)"
| "serializedBytes P UuidArray v =
     countBytes (length (elements v)) @ concat (map uuidBytes (elements v))"
| "serializedBytes P BooleanArray v =
     countBytes (length (elements v)) @ packedBooleans (elements v)"

text \<open>The appenders of arrays, whose length field is a \<open>u16\<close>.\<close>

fun arrayAppender :: "appender \<Rightarrow> bool" where
  "arrayAppender BooleanArray = True"
| "arrayAppender QuatArray = True"
| "arrayAppender Vec3Array = True"
| "arrayAppender UuidArray = True"
| "arrayAppender a = False"

text \<open>The fields of a packet context after a property has been written.\<close>

definition contextWritten :: "nat \<Rightarrow> OctreePacketContext \<Rightarrow> OctreePacketContext" where
  "contextWritten flag c =
     \<lparr>propertiesToWrite = propertiesToWrite c - {flag},
      propertiesWritten = insert flag (propertiesWritten c),
      propertyCount = propertyCount c + 1,
      appendState = appendState c\<rparr>"

definition disjointFlags :: "OctreePacketContext \<Rightarrow> bool" where
  "disjointFlags c = (propertiesToWrite c \<inter> propertiesWritten c = {})"

section \<open>EntityItemProperties.encodeEntityEditPacket\<close>

text \<open>
  Modelled from the spec: \<open>PropertyFlags.ts\<close> is not under \<open>src/\<close>. Section 4.G: "Wire
  layout (big-endian): first byte begins with unary-1s counting total length bytes,
  terminated by a 0 bit; remaining bit positions (contiguous) are flag presence bits in
  ascending enumeration order", and "the set's maximum flag index determines wire
  length". The expected messages of the unit test of the encoder have a block of 13
  bytes that begins with twelve 1 bits: a block of \<open>numBytes\<close> bytes has \<open>numBytes - 1\<close> of
  them. \<open>flagBlock numBytes flags\<close> is the block at a given length (the reserved block
  has the maximum length), \<open>encodedLength flags\<close> the least length that holds the flags.
\<close>

definition flagBlockBit :: "nat \<Rightarrow> EntityPropertyFlags \<Rightarrow> nat \<Rightarrow> bool" where
  "flagBlockBit numBytes flags i =
     (if i + 1 < numBytes then True else if i + 1 = numBytes then False else i - numBytes \<in> flags)"

fun bitsToInt :: "bool list \<Rightarrow> int" where
  "bitsToInt [] = 0"
| "bitsToInt (b # bs) = (if b then 2 ^ length bs else 0) + bitsToInt bs"

definition flagBlock :: "nat \<Rightarrow> EntityPropertyFlags \<Rightarrow> byte list" where
  "flagBlock numBytes flags =
     map (\<lambda>k. word_of_int (bitsToInt (map (\<lambda>j. flagBlockBit numBytes flags (8 * k + j)) [0..<8])))
       [0..<numBytes]"

definition encodedLength :: "EntityPropertyFlags \<Rightarrow> nat" where
  "encodedLength flags = (if flags = {} then 1 else Max flags div 7 + 1)"

text \<open>
  Modelled from the spec: \<open>EntityItemProperties.ts\<close> is not under \<open>src/\<close> (its unit test
  is). Section 4.I: "2. Write the packet header, entity UUID, and the requestedProperties
  flag block, reserving its maximum possible byte length (so later bits can be turned
  off in place without shifting payload). 3. For each flag in order, invoke the matching
  typed appender from 4.H. On a PARTIAL return from any appender, mark that flag in
  didntFitProperties, clear it in the in-place flags block (so the wire image reflects
  only what was actually written), and continue trying remaining smaller fields (a
  later field may still fit). 4. Return appendState: COMPLETED: every requested property
  fit; didntFitProperties is empty. PARTIAL: at least one property was written and at
  least one did not fit. NONE: no property was written (caller should abandon the
  packet; buffer position must be unchanged from the pre-property-write checkpoint)".

  Step 1 is taken as done: the requested properties are the list of their flags in
  order, each with its appender and its value. \<open>header\<close> is the bytes of step 2 that come
  before the flag block (in the unit test the octal code, the time of the last edit,
  the entity UUID, the entity type and the update delta: 27 bytes) and \<open>maxFlagBytes\<close>
  the length reserved for the flag block (19 bytes in the unit test, whose buffer of 48
  bytes has "2 available bytes after property flags"). Both are written with the
  \<open>DataView\<close> from \<open>messageData.dataPosition\<close> on, and the properties from the position
  behind the reserved block on, which is the pre-property-write checkpoint.

  A PARTIAL return of an appender is a call that leaves \<open>appendState = PARTIAL\<close> in the
  packet context; the state is \<open>COMPLETED\<close> when the call is made, so that the state found
  is the one this call has set.

  The unit test fixes what is left in \<open>messageData.dataPosition\<close>: the position it had at
  the call when no property was written ("expect(messageData.dataPosition).toBe(0)"),
  and otherwise the end of the message, in which the flag block has the length of its
  encoding (13 bytes in the expected messages) and the properties follow it directly.
  So the position is assigned only when a property was written, after the flag block
  has been encoded again at its own length and the bytes of the properties moved behind
  it.
\<close>

type_synonym requested_property = "nat \<times> appender \<times> jsval"

fun appendProperties ::
  "platform \<Rightarrow> nat \<Rightarrow> int \<Rightarrow> requested_property list \<Rightarrow> int \<Rightarrow> EntityPropertyFlags
   \<Rightarrow> EntityPropertyFlags \<Rightarrow> js_state
   \<Rightarrow> error + int \<times> EntityPropertyFlags \<times> EntityPropertyFlags \<times> js_state" where
  "appendProperties P maxFlagBytes flagsPosition [] dataPosition propertyFlags didntFitProperties s =
     Inr (dataPosition, propertyFlags, didntFitProperties, s)"
| "appendProperties P maxFlagBytes flagsPosition ((flag, a, v) # rest) dataPosition propertyFlags
     didntFitProperties s =
     bindE (appendValue P a dataPosition flag v
              (s\<lparr>packetContext := (packetContext s)\<lparr>appendState := COMPLETED\<rparr>\<rparr>)) (\<lambda>(n, s').
     if appendState (packetContext s') = PARTIAL then
       bindE (write_bytes (data s') flagsPosition
                (flagBlock maxFlagBytes (setHasProperty flag False propertyFlags))) (\<lambda>d'.
       appendProperties P maxFlagBytes flagsPosition rest dataPosition
         (setHasProperty flag False propertyFlags) (setHasProperty flag True didntFitProperties)
         (s'\<lparr>data := d'\<rparr>))
     else
       appendProperties P maxFlagBytes flagsPosition rest (dataPosition + int n) propertyFlags
         didntFitProperties s')"

text \<open>
  The result: the \<open>AppendState\<close> returned, \<open>messageData.dataPosition\<close> after the call, the
  position behind the last property written, the flags of the flag block, the
  properties that did not fit, and the buffer, the packet context and the console.
\<close>

record encode_result =
  returnedState :: AppendState
  messageDataPosition :: int
  propertiesEnd :: int
  propertyFlagsOut :: EntityPropertyFlags
  didntFitOut :: EntityPropertyFlags
  stateOut :: js_state

definition encodeEntityEditPacket ::
  "platform \<Rightarrow> byte list \<Rightarrow> nat \<Rightarrow> requested_property list \<Rightarrow> int \<Rightarrow> js_state
   \<Rightarrow> error + encode_result" where
  "encodeEntityEditPacket P header maxFlagBytes requested messageDataPosition0 s =
     (let requestedProperties = set (map fst requested);
          flagsPosition = messageDataPosition0 + int (length header);
          checkpoint = flagsPosition + int maxFlagBytes;
          packetContext0 = \<lparr>propertiesToWrite = requestedProperties, propertiesWritten = {},
                            propertyCount = 0, appendState = COMPLETED\<rparr>
      in bindE (write_bytes (data s) messageDataPosition0 header) (\<lambda>d1.
         bindE (write_bytes d1 flagsPosition (flagBlock maxFlagBytes requestedProperties)) (\<lambda>d2.
         bindE (appendProperties P maxFlagBytes flagsPosition requested checkpoint requestedProperties {}
                  (s\<lparr>data := d2, packetContext := packetContext0\<rparr>))
           (\<lambda>(dataPosition, propertyFlags, didntFitProperties, s').
            if propertyCount (packetContext s') = 0 then
              Inr \<lparr>returnedState = NONE,
                   messageDataPosition = messageDataPosition0,
                   propertiesEnd = dataPosition,
                   propertyFlagsOut = propertyFlags,
                   didntFitOut = didntFitProperties,
                   stateOut = s'\<rparr>
            else
              (let encodedFlags = flagBlock (encodedLength propertyFlags) propertyFlags in
               bindE (read_bytes (data s') checkpoint (nat (dataPosition - checkpoint))) (\<lambda>written.
               bindE (write_bytes (data s') flagsPosition (encodedFlags @ written)) (\<lambda>d3.
               Inr \<lparr>returnedState = (if didntFitProperties = {} then COMPLETED else PARTIAL),
                    messageDataPosition = flagsPosition + int (length encodedFlags) + int (length written),
                    propertiesEnd = dataPosition,
                    propertyFlagsOut = propertyFlags,
                    didntFitOut = didntFitProperties,
                    stateOut = s'\<lparr>data := d3\<rparr>\<rparr>)))))))"

section \<open>RingGizmoPropertyGroup.ts\<close>

text \<open>
  Modelled from the spec: \<open>EntityPropertyFlags.ts\<close> is not under \<open>src/\<close>; the property
  identifiers that the ring gizmo group names are members of the "closed ordered
  enumeration", and their numbers are parameters.
\<close>

record EntityPropertyList =
  PROP_START_ANGLE :: nat
  PROP_END_ANGLE :: nat
  PROP_INNER_RADIUS :: nat
  PROP_INNER_START_COLOR :: nat
  PROP_INNER_END_COLOR :: nat
  PROP_OUTER_START_COLOR :: nat
  PROP_OUTER_END_COLOR :: nat
  PROP_INNER_START_ALPHA :: nat
  PROP_INNER_END_ALPHA :: nat
  PROP_OUTER_START_ALPHA :: nat
  PROP_OUTER_END_ALPHA :: nat
  PROP_HAS_TICK_MARKS :: nat
  PROP_MAJOR_TICK_MARKS_ANGLE :: nat
  PROP_MINOR_TICK_MARKS_ANGLE :: nat
  PROP_MAJOR_TICK_MARKS_LENGTH :: nat
  PROP_MINOR_TICK_MARKS_LENGTH :: nat
  PROP_MAJOR_TICK_MARKS_COLOR :: nat
  PROP_MINOR_TICK_MARKS_COLOR :: nat

record RingGizmoPropertyGroupSubclassData =
  bytesRead :: nat
  properties :: jsval

text \<open>
  Each \<open>if (propertyFlags.getHasProperty(...)) { dataPosition += n; }\<close> of the function.
\<close>

definition skipProperty :: "EntityPropertyFlags \<Rightarrow> nat \<Rightarrow> nat \<Rightarrow> nat \<Rightarrow> nat" where
  "skipProperty propertyFlags flag n dataPosition =
     (if getHasProperty propertyFlags flag then dataPosition + n else dataPosition)"

definition readEntitySubclassDataFromBuffer ::
  "EntityPropertyList \<Rightarrow> dataview \<Rightarrow> nat \<Rightarrow> EntityPropertyFlags \<Rightarrow> RingGizmoPropertyGroupSubclassData" where
  "readEntitySubclassDataFromBuffer E d position propertyFlags =
     (let dataPosition = position;
          dataPosition = skipProperty propertyFlags (PROP_START_ANGLE E) 4 dataPosition;
          dataPosition = skipProperty propertyFlags (PROP_END_ANGLE E) 4 dataPosition;
          dataPosition = skipProperty propertyFlags (PROP_INNER_RADIUS E) 4 dataPosition;
          dataPosition = skipProperty propertyFlags (PROP_INNER_START_COLOR E) 3 dataPosition;
          dataPosition = skipProperty propertyFlags (PROP_INNER_END_COLOR E) 3 dataPosition;
          dataPosition = skipProperty propertyFlags (PROP_OUTER_START_COLOR E) 3 dataPosition;
          dataPosition = skipProperty propertyFlags (PROP_OUTER_END_COLOR E) 3 dataPosition;
          dataPosition = skipProperty propertyFlags (PROP_INNER_START_ALPHA E) 4 dataPosition;
          dataPosition = skipProperty propertyFlags (PROP_INNER_END_ALPHA E) 4 dataPosition;
          dataPosition = skipProperty propertyFlags (PROP_OUTER_START_ALPHA E) 4 dataPosition;
          dataPosition = skipProperty propertyFlags (PROP_OUTER_END_ALPHA E) 4 dataPosition;
          dataPosition = skipProperty propertyFlags (PROP_HAS_TICK_MARKS E) 1 dataPosition;
          dataPosition = skipProperty propertyFlags (PROP_MAJOR_TICK_MARKS_ANGLE E) 4 dataPosition;
          dataPosition = skipProperty propertyFlags (PROP_MINOR_TICK_MARKS_ANGLE E) 4 dataPosition;
          dataPosition = skipProperty propertyFlags (PROP_MAJOR_TICK_MARKS_LENGTH E) 4 dataPosition;
          dataPosition = skipProperty propertyFlags (PROP_MINOR_TICK_MARKS_LENGTH E) 4 dataPosition;
          dataPosition = skipProperty propertyFlags (PROP_MAJOR_TICK_MARKS_COLOR E) 3 dataPosition;
          dataPosition = skipProperty propertyFlags (PROP_MINOR_TICK_MARKS_COLOR E) 3 dataPosition
      in \<lparr>bytesRead = dataPosition - position, properties = JSObject []\<rparr>)"

text \<open>
  The ring gizmo property flags with their fixed field sizes, "4, 4, 4, 3, 3, 3, 3, 4, 4,
  4, 4, 1, 4, 4, 4, 4, 3, 3 bytes respectively", and the sum of the sizes of those that
  are present in a set.
\<close>

definition ringGizmoFields :: "EntityPropertyList \<Rightarrow> (nat \<times> nat) list" where
  "ringGizmoFields E =
     [(PROP_START_ANGLE E, 4), (PROP_END_ANGLE E, 4), (PROP_INNER_RADIUS E, 4),
      (PROP_INNER_START_COLOR E, 3), (PROP_INNER_END_COLOR E, 3),
      (PROP_OUTER_START_COLOR E, 3), (PROP_OUTER_END_COLOR E, 3),
      (PROP_INNER_START_ALPHA E, 4), (PROP_INNER_END_ALPHA E, 4),
      (PROP_OUTER_START_ALPHA E, 4), (PROP_OUTER_END_ALPHA E, 4),
      (PROP_HAS_TICK_MARKS E, 1),
      (PROP_MAJOR_TICK_MARKS_ANGLE E, 4), (PROP_MINOR_TICK_MARKS_ANGLE E, 4),
      (PROP_MAJOR_TICK_MARKS_LENGTH E, 4), (PROP_MINOR_TICK_MARKS_LENGTH E, 4),
      (PROP_MAJOR_TICK_MARKS_COLOR E, 3), (PROP_MINOR_TICK_MARKS_COLOR E, 3)]"

fun presentSizes :: "EntityPropertyFlags \<Rightarrow> (nat \<times> nat) list \<Rightarrow> nat" where
  "presentSizes fs [] = 0"
| "presentSizes fs ((flag, n) # rest) = (if flag \<in> fs then n else 0) + presentSizes fs rest"

section \<open>Example inputs\<close>

text \<open>
  A platform, a packet context and a state with a zeroed buffer of \<open>n\<close> bytes, for the
  statements at concrete inputs. The color, the UUID, the buffer of 48 bytes and the
  header are those of the unit test of the encoder: the header is the first 27 bytes of
  its expected messages, and the two requested properties are \<open>lastEditedBy\<close> and
  \<open>color\<close>, whose flags have the numbers 17 and 84 in the flag block of these messages.
\<close>

definition examplePlatform :: platform where
  "examplePlatform =
     \<lparr>float32_bits = (\<lambda>n. 0), TextEncoder_encode = map (\<lambda>c. of_nat (of_char c)), packedQuat = (\<lambda>q. 0)\<rparr>"

definition exampleContext :: OctreePacketContext where
  "exampleContext =
     \<lparr>propertiesToWrite = {3, 5}, propertiesWritten = {1}, propertyCount = 1, appendState = COMPLETED\<rparr>"

definition exampleState :: "nat \<Rightarrow> js_state" where
  "exampleState n = \<lparr>data = replicate n 0, packetContext = exampleContext, console = []\<rparr>"

definition exampleColor :: jsval where
  "exampleColor = JSObject
     [(''red'', JSNumber (Finite 240)), (''green'', JSNumber (Finite 37)), (''blue'', JSNumber (Finite 148))]"

definition exampleUuid :: jsval where
  "exampleUuid = JSUuid 0xa82f40b6ee8946ccb50402b88d72a546"


definition exampleHeader :: "byte list" where
  "exampleHeader =
     [0x00, 0xb6, 0x85, 0xf1, 0xf2, 0x0a, 0x00, 0x06, 0x00,
      0xb7, 0x1d, 0x53, 0x80, 0x2f, 0xcc, 0x48, 0x33, 0x93, 0xa7, 0x9a, 0x49, 0x67, 0x01, 0x75, 0x87,
      0x40, 0x00]"

definition exampleRequested :: "requested_property list" where
  "exampleRequested = [(17, UuidValue, exampleUuid), (84, ColorValue, exampleColor)]"
section \<open>Lemmas on buffers and byte strings\<close>

lemma bindE_Inr [simp]: "bindE (Inr x) f = f x"
  by (simp add: bindE_def)

lemma bindE_Inl [simp]: "bindE (Inl e) f = Inl e"
  by (simp add: bindE_def)

lemma length_storeBytes [simp]: "p + length bs \<le> length d \<Longrightarrow> length (storeBytes d p bs) = length d"
  by (simp add: storeBytes_def)

lemma ToIndex_nonneg: "0 \<le> q \<Longrightarrow> ToIndex q = Inr (nat q)"
  by (simp add: ToIndex_def)

lemma ToIndex_negative: "q < 0 \<Longrightarrow> ToIndex q = Inl RangeError"
  by (simp add: ToIndex_def)

lemma nat_int_plus_numeral [simp]: "nat (int p + numeral k) = p + numeral k"
  by (simp add: nat_add_distrib)

lemma nat_int_plus_one [simp]: "nat (int p + 1) = Suc p"
  by (simp add: nat_add_distrib)

lemma write_bytes_fits:
  "0 \<le> q \<Longrightarrow> nat q + length bs \<le> length d \<Longrightarrow> write_bytes d q bs = Inr (storeBytes d (nat q) bs)"
  by (simp add: write_bytes_def byteLength_def ToIndex_nonneg)

lemma write_bytes_negative: "q < 0 \<Longrightarrow> write_bytes d q bs = Inl RangeError"
  by (simp add: write_bytes_def ToIndex_negative)

lemma write_bytes_length: "write_bytes d q bs = Inr d' \<Longrightarrow> length d' = length d"
  by (cases "q < 0") (auto simp: write_bytes_def ToIndex_def byteLength_def split: if_splits)

lemma storeBytes_nth_outside:
  assumes "p + length bs \<le> length d" and "i < p \<or> p + length bs \<le> i" and "i < length d"
  shows "storeBytes d p bs ! i = d ! i"
proof (cases "i < p")
  case True
  then show ?thesis
    using assms(1) by (simp add: storeBytes_def nth_append)
next
  case False
  with assms(2) have "p + length bs \<le> i"
    by simp
  then obtain k where k: "i = p + length bs + k"
    using le_Suc_ex by blast
  have "p \<le> length d"
    using assms(1) by simp
  then show ?thesis
    using assms(1,3) unfolding k by (simp add: storeBytes_def nth_append min_absorb2)
qed

lemma storeBytes_then_next:
  assumes "length b1 = n" and "p + n + length b2 \<le> length d"
  shows "storeBytes (storeBytes d p b1) (p + n) b2 = storeBytes d p (b1 @ b2)"
proof -
  have "p \<le> length d" using assms by simp
  then show ?thesis using assms
    by (simp add: storeBytes_def min_absorb2 ac_simps)
qed

lemma storeBytes_then_before:
  assumes "length b1 = n" and "p + n + length b2 \<le> length d"
  shows "storeBytes (storeBytes d (p + n) b2) p b1 = storeBytes d p (b1 @ b2)"
proof -
  have "p \<le> length d" "p + n \<le> length d" using assms by simp_all
  then show ?thesis using assms
    by (simp add: storeBytes_def min_absorb2 ac_simps)
qed

lemma read_storeBytes_first:
  assumes "length b1 = n" and "p + n + length b2 \<le> length d"
  shows "read_bytes (storeBytes d p (b1 @ b2)) (int p) n = Inr b1"
proof -
  have "p \<le> length d" using assms by simp
  then show ?thesis using assms
    by (simp add: read_bytes_def byteLength_def storeBytes_def min_absorb2 ToIndex_nonneg)
qed

lemma read_storeBytes_second:
  assumes "length b1 = n" and "length b2 = m" and "p + n + m \<le> length d"
  shows "read_bytes (storeBytes d p (b1 @ b2)) (int p + int n) m = Inr b2"
proof -
  have "p \<le> length d" using assms by simp
  moreover have "nat (int p + int n) = p + n" by simp
  ultimately show ?thesis using assms
    by (simp add: read_bytes_def byteLength_def storeBytes_def min_absorb2 ToIndex_nonneg)
qed

lemma length_le_bytes [simp]: "length (le_bytes n v) = n"
  by (induction n arbitrary: v) simp_all

lemma length_int_bytes [simp]: "length (int_bytes e n v) = n"
  by (simp add: int_bytes_def)

lemma le_int_le_bytes: "le_int (le_bytes n v) = v mod 256 ^ n"
proof (induction n arbitrary: v)
  case 0
  show ?case by simp
next
  case (Suc n)
  have "uint (word_of_int v :: byte) = v mod 256"
    by (simp add: uint_word_of_int)
  then have "le_int (le_bytes (Suc n) v) = v mod 256 + 256 * ((v div 256) mod 256 ^ n)"
    by (simp add: Suc.IH)
  also have "\<dots> = v mod (256 * 256 ^ n)"
    using zmod_zmult2_eq [of "256 ^ n" v 256] by simp
  finally show ?case by simp
qed

lemma bytes_int_int_bytes: "bytes_int e (int_bytes e n v) = v mod 256 ^ n"
  by (simp add: bytes_int_def int_bytes_def le_int_le_bytes)

lemma bigint_halves:
  assumes "0 \<le> x" and "x < 2 ^ 128"
  shows "push_bit 64 (drop_bit 64 x mod 256 ^ 8) + (x AND 0xffffffffffffffff) mod 256 ^ 8 = (x::int)"
proof -
  have m: "(0xffffffffffffffff :: int) = mask 64"
    by (simp add: mask_eq_exp_minus_1)
  have lo: "x AND 0xffffffffffffffff = x mod 2 ^ 64"
    unfolding m by (simp add: take_bit_eq_mask [symmetric] take_bit_eq_mod)
  have "0 \<le> drop_bit 64 x" and "drop_bit 64 x < 2 ^ 64"
    using assms by (simp_all add: drop_bit_eq_div)
  then have hi: "drop_bit 64 x mod 256 ^ 8 = x div 2 ^ 64"
    by (simp add: drop_bit_eq_div)
  show ?thesis
    unfolding lo hi by (simp add: push_bit_eq_mult)
qed

lemma setBigUint128_fits:
  assumes "byteOffset + 16 \<le> length d"
  shows "setBigUint128 d (int byteOffset) x e =
     Inr (storeBytes d byteOffset
        (let y = (if x > MAX_U128_VALUE then 0 else x) in
         if e then int_bytes e 8 (y AND MASK_64_BITS) @ int_bytes e 8 (drop_bit 64 y)
         else int_bytes e 8 (drop_bit 64 y) @ int_bytes e 8 (y AND MASK_64_BITS)))"
  using assms
  by (simp add: setBigUint128_def setBigUint64_def SHIFT_64_BITS_def Let_def write_bytes_fits
      storeBytes_then_next storeBytes_then_before)

section \<open>Big-endian bytes in two halves\<close>

lemma le_bytes_mod: "le_bytes n (v mod 256 ^ n) = le_bytes n v"
proof (induction n arbitrary: v)
  case 0
  show ?case by simp
next
  case (Suc n)
  have "v mod (256 * 256 ^ n) = 256 * (v div 256 mod 256 ^ n) + v mod 256"
    using zmod_zmult2_eq [of "256 ^ n" v 256] by simp
  then have d: "v mod (256 * 256 ^ n) div 256 = v div 256 mod 256 ^ n"
    by simp
  have "(v mod (256 * 256 ^ n)) mod 256 = v mod 256"
    by (simp add: mod_mod_cancel)
  then have w: "(word_of_int (v mod (256 * 256 ^ n)) :: byte) = word_of_int v"
    by (simp add: word_of_int_eq_iff take_bit_eq_mod)
  show ?case
    using Suc.IH [of "v div 256"] by (simp add: d w)
qed

lemma le_bytes_add: "le_bytes (m + n) v = le_bytes m v @ le_bytes n (v div 256 ^ m)"
proof (induction m arbitrary: v)
  case 0
  show ?case by simp
next
  case (Suc m)
  have "v div 256 div 256 ^ m = v div (256 * 256 ^ m)"
    by (simp add: zdiv_zmult2_eq)
  then show ?case
    using Suc.IH [of "v div 256"] by simp
qed

lemma uuid_halves:
  "int_bytes False 8 (drop_bit 64 v) @ int_bytes False 8 (v AND MASK_64_BITS) = int_bytes False 16 v"
proof -
  have m: "MASK_64_BITS = mask 64"
    by (simp add: MASK_64_BITS_def mask_eq_exp_minus_1)
  have lo: "v AND MASK_64_BITS = v mod 256 ^ 8"
    unfolding m by (simp add: take_bit_eq_mask [symmetric] take_bit_eq_mod)
  have hi: "drop_bit 64 v = v div 256 ^ 8"
    by (simp add: drop_bit_eq_div)
  have "le_bytes 16 v = le_bytes 8 v @ le_bytes 8 (v div 256 ^ 8)"
    using le_bytes_add [of 8 8 v] by simp
  moreover have "le_bytes 8 (v mod 256 ^ 8) = le_bytes 8 v"
    by (rule le_bytes_mod)
  ultimately show ?thesis
    unfolding lo hi int_bytes_def by simp
qed

section \<open>Lemmas on the validity checks\<close>

declare getPath.simps [simp del]

lemma conj_seq_True: "conj_seq cs = Inr True \<longleftrightarrow> (\<forall>c \<in> set cs. c = Inr True)"
proof (induction cs)
  case Nil
  show ?case by simp
next
  case (Cons c cs)
  show ?case
  proof (cases c)
    case (Inl e)
    then show ?thesis by simp
  next
    case (Inr b)
    then show ?thesis using Cons.IH by (cases b) auto
  qed
qed

lemma every_True: "every f xs = Inr True \<longleftrightarrow> (\<forall>x \<in> set xs. f x = Inr True)"
proof (induction xs)
  case Nil
  show ?case by simp
next
  case (Cons x xs)
  show ?case
  proof (cases "f x")
    case (Inl e)
    then show ?thesis by simp
  next
    case (Inr b)
    then show ?thesis using Cons.IH by (cases b) auto
  qed
qed

lemma typeof_is_number:
  assumes "typeof_is m TNumber = Inr True"
  shows "\<exists>n. m = Inr (JSNumber n)"
proof (cases m)
  case (Inl e)
  then show ?thesis using assms by (simp add: typeof_is_def)
next
  case (Inr x)
  then show ?thesis using assms by (cases x) (simp_all add: typeof_is_def)
qed

section \<open>Lemmas on the setters\<close>

lemma setUint8_fits:
  "0 \<le> q \<Longrightarrow> nat q + 1 \<le> length d \<Longrightarrow>
   setUint8 d q (JSNumber n) = Inr (storeBytes d (nat q) (int_bytes True 1 (ToIntegerOrZero n)))"
  by (simp add: setUint8_def write_bytes_fits ToIndex_nonneg)

lemma setUint16_fits:
  "0 \<le> q \<Longrightarrow> nat q + 2 \<le> length d \<Longrightarrow>
   setUint16 d q (JSNumber n) e = Inr (storeBytes d (nat q) (int_bytes e 2 (ToIntegerOrZero n)))"
  by (simp add: setUint16_def write_bytes_fits ToIndex_nonneg)

lemma setUint32_fits:
  "0 \<le> q \<Longrightarrow> nat q + 4 \<le> length d \<Longrightarrow>
   setUint32 d q (JSNumber n) e = Inr (storeBytes d (nat q) (int_bytes e 4 (ToIntegerOrZero n)))"
  by (simp add: setUint32_def write_bytes_fits ToIndex_nonneg)

lemma setFloat32_fits:
  "0 \<le> q \<Longrightarrow> nat q + 4 \<le> length d \<Longrightarrow>
   setFloat32 P d q (JSNumber n) e = Inr (storeBytes d (nat q) (int_bytes e 4 (uint (float32_bits P n))))"
  by (simp add: setFloat32_def write_bytes_fits ToIndex_nonneg)

lemma setBigUint64_fits:
  "0 \<le> q \<Longrightarrow> nat q + 8 \<le> length d \<Longrightarrow>
   setBigUint64 d q i e = Inr (storeBytes d (nat q) (int_bytes e 8 i))"
  by (simp add: setBigUint64_def write_bytes_fits)

lemma packOrientationQuatToBytes_fits:
  "0 \<le> q \<Longrightarrow> nat q + 8 \<le> length d \<Longrightarrow>
   packOrientationQuatToBytes P d q v = Inr (storeBytes d (nat q) (int_bytes True 8 (uint (packedQuat P v))))"
  by (simp add: packOrientationQuatToBytes_def write_bytes_fits)

lemmas setter_fits =
  setUint8_fits setUint16_fits setUint32_fits setFloat32_fits setBigUint64_fits
  packOrientationQuatToBytes_fits

lemma setter_negative:
  "q < 0 \<Longrightarrow> setUint8 d q v = Inl RangeError"
  "q < 0 \<Longrightarrow> setUint16 d q v e = Inl RangeError"
  "q < 0 \<Longrightarrow> setUint32 d q v e = Inl RangeError"
  "q < 0 \<Longrightarrow> setFloat32 P d q v e = Inl RangeError"
  "q < 0 \<Longrightarrow> setBigUint64 d q i e = Inl RangeError"
  "q < 0 \<Longrightarrow> packOrientationQuatToBytes P d q v = Inl RangeError"
  by (simp_all add: setUint8_def setUint16_def setUint32_def setFloat32_def setBigUint64_def
      packOrientationQuatToBytes_def ToIndex_negative write_bytes_negative)
section \<open>The appenders, one by one\<close>

text \<open>What each appender does with a valid value that fits: the bytes it stores.\<close>

lemma propertyNumber_number: "getPath v path = Inr (JSNumber x) \<Longrightarrow> propertyNumber v path = x"
  by (simp add: propertyNumber_def)

lemma length_uintBytes [simp]: "length (uintBytes e n x) = n"
  by (simp add: uintBytes_def)

lemma length_float32Bytes [simp]: "length (float32Bytes P e x) = 4"
  by (simp add: float32Bytes_def)

lemma length_countBytes [simp]: "length (countBytes n) = 2"
  by (simp add: countBytes_def)

lemma length_quatBytes [simp]: "length (quatBytes P q) = 8"
  by (simp add: quatBytes_def)

lemma length_vec3Bytes [simp]: "length (vec3Bytes P v) = 12"
  by (simp add: vec3Bytes_def)

lemma length_concat_fixed:
  "\<forall>x \<in> set xs. length (g x) = k \<Longrightarrow> length (concat (map g xs)) = k * length xs"
  by (induction xs) simp_all

lemma storeBytes_then_next2:
  assumes "length b1 = 2" and "Suc (Suc (p + length b2)) \<le> length d"
  shows "storeBytes (storeBytes d p b1) (Suc (Suc p)) b2 = storeBytes d p (b1 @ b2)"
  using storeBytes_then_next [of b1 2 p b2 d] assms by simp

lemma storeBytes_Nil: "p \<le> length d \<Longrightarrow> storeBytes d p [] = d"
  by (simp add: storeBytes_def)

lemma ToIntegerOrZero_nat [simp]: "ToIntegerOrZero (Finite (real n)) = int n"
  by simp

lemma ToIntegerOrZero_int [simp]: "ToIntegerOrZero (Finite (of_int i)) = i"
  by simp

lemma appendAACubeValue_written:
  assumes "validAACubeValue v = Inr True" and "p + 16 \<le> length (data s)"
  shows "appendAACubeValue P (int p) f v s =
     Inr (16, propertyWritten f (s\<lparr>data := storeBytes (data s) p (serializedBytes P AACubeValue v)\<rparr>))"
proof -
  from assms(1) obtain x y z sc where
    "getPath v [''corner'', ''x''] = Inr (JSNumber x)"
    "getPath v [''corner'', ''y''] = Inr (JSNumber y)"
    "getPath v [''corner'', ''z''] = Inr (JSNumber z)"
    "getPath v [''scale''] = Inr (JSNumber sc)"
    unfolding validAACubeValue_def conj_seq_True
    by (auto dest!: typeof_is_number)
  then show ?thesis
    using assms
    by (simp add: appendAACubeValue_def byteLength_def setter_fits storeBytes_then_next
        propertyNumber_number float32Bytes_def)
qed

lemma setUint8_byte:
  assumes "p + 1 \<le> length d"
  shows "setUint8 d (int p) (JSNumber (Finite (real (unat b)))) = Inr (storeBytes d p [b])"
proof -
  have "int_bytes True 1 (int (unat b)) = [b]"
    by (simp add: int_bytes_def)
  then show ?thesis
    using assms setUint8_fits [of "int p" d "Finite (real (unat b))"]
    unfolding ToIntegerOrZero_nat by simp
qed

lemma setUint8Loop_fits:
  "p + length bs \<le> length d \<Longrightarrow> setUint8Loop d (int p) bs = Inr (storeBytes d p bs)"
proof (induction bs arbitrary: d p)
  case Nil
  then show ?case by (simp add: storeBytes_def)
next
  case (Cons b bs)
  have w: "setUint8 d (int p) (JSNumber (Finite (real (unat b)))) = Inr (storeBytes d p [b])"
    using Cons.prems by (intro setUint8_byte) simp
  have e: "int (p + 1) = int p + 1"
    by simp
  have "setUint8Loop (storeBytes d p [b]) (int (p + 1)) bs = Inr (storeBytes (storeBytes d p [b]) (p + 1) bs)"
    using Cons.prems by (intro Cons.IH) simp
  also have "storeBytes (storeBytes d p [b]) (p + 1) bs = storeBytes d p (b # bs)"
    using Cons.prems storeBytes_then_next [of "[b]" 1 p bs d] by simp
  finally have "setUint8Loop (storeBytes d p [b]) (int p + 1) bs = Inr (storeBytes d p (b # bs))"
    unfolding e .
  then show ?case
    unfolding setUint8Loop.simps w by simp
qed

lemma setUint8Loop_after_count:
  assumes "p + (2 + length bs) \<le> length d" and "length b = 2"
  shows "setUint8Loop (storeBytes d p b) (int p + 2) bs = Inr (storeBytes d p (b @ bs))"
proof -
  have e: "int (p + 2) = int p + 2"
    by simp
  have "setUint8Loop (storeBytes d p b) (int (p + 2)) bs = Inr (storeBytes (storeBytes d p b) (p + 2) bs)"
    using assms by (intro setUint8Loop_fits) simp
  also have "storeBytes (storeBytes d p b) (p + 2) bs = storeBytes d p (b @ bs)"
    using assms by (intro storeBytes_then_next) simp_all
  finally show ?thesis
    unfolding e .
qed

lemma appendArrayBufferValue_written:
  assumes "validArrayBufferValue v = Inr True" and "p + (2 + length (arrayBufferBytes v)) \<le> length (data s)"
  shows "appendArrayBufferValue (int p) f v s =
     Inr (2 + length (arrayBufferBytes v),
          propertyWritten f (s\<lparr>data := storeBytes (data s) p (serializedBytes P ArrayBufferValue v)\<rparr>))"
  using assms
  by (simp add: appendArrayBufferValue_def byteLength_def setter_fits setUint8Loop_after_count
      countBytes_def del: ToIntegerOrZero.simps)

lemma appendBooleanValue_written:
  assumes "validBooleanValue v = Inr True" and "p + 1 \<le> length (data s)"
  shows "appendBooleanValue (int p) f v s =
     Inr (1, propertyWritten f (s\<lparr>data := storeBytes (data s) p (serializedBytes P BooleanValue v)\<rparr>))"
  using assms
  by (simp add: appendBooleanValue_def byteLength_def setter_fits uintBytes_def
      del: ToIntegerOrZero.simps)

lemma appendColorValue_written:
  assumes "validColorValue v = Inr True" and "p + 3 \<le> length (data s)"
  shows "appendColorValue (int p) f v s =
     Inr (3, propertyWritten f (s\<lparr>data := storeBytes (data s) p (serializedBytes P ColorValue v)\<rparr>))"
proof -
  from assms(1) obtain r g b where c:
    "getPath v [''red''] = Inr (JSNumber r)"
    "getPath v [''green''] = Inr (JSNumber g)"
    "getPath v [''blue''] = Inr (JSNumber b)"
    unfolding validColorValue_def conj_seq_True
    by (auto dest!: typeof_is_number)
  show ?thesis
    using assms c storeBytes_then_next [of "int_bytes True 1 (ToIntegerOrZero r)" 1 p]
      storeBytes_then_next [of "int_bytes True 1 (ToIntegerOrZero r) @ int_bytes True 1 (ToIntegerOrZero g)" 2 p]
    by (simp add: appendColorValue_def byteLength_def setter_fits propertyNumber_number uintBytes_def
        del: ToIntegerOrZero.simps)
qed

lemma validFloat32Value_number:
  "validFloat32Value v = Inr True \<Longrightarrow> \<exists>n. v = JSNumber n"
  by (cases v) (simp_all add: validFloat32Value_def)

lemma appendFloat32Value_written:
  assumes "validFloat32Value v = Inr True" and "p + 4 \<le> length (data s)"
  shows "appendFloat32Value P (int p) f v e s =
     Inr (4, propertyWritten f (s\<lparr>data := storeBytes (data s) p (serializedBytes P (Float32Value e) v)\<rparr>))"
proof -
  from validFloat32Value_number [OF assms(1)] obtain n where v: "v = JSNumber n" ..
  show ?thesis
    using assms unfolding v
    by (simp add: appendFloat32Value_def byteLength_def setter_fits float32Bytes_def)
qed

lemma quatArrayLoop_fits:
  "p + 8 * length xs \<le> length d \<Longrightarrow>
   quatArrayLoop P d (int p) xs = Inr (storeBytes d p (concat (map (quatBytes P) xs)))"
proof (induction xs arbitrary: d p)
  case Nil
  then show ?case by (simp add: storeBytes_def)
next
  case (Cons x xs)
  let ?b = "quatBytes P x"
  let ?bs = "concat (map (quatBytes P) xs)"
  have len: "length ?bs = 8 * length xs"
    by (rule length_concat_fixed) simp
  have w: "packOrientationQuatToBytes P d (int p) x = Inr (storeBytes d p ?b)"
    using Cons.prems by (simp add: packOrientationQuatToBytes_fits quatBytes_def)
  have l: "quatArrayLoop P (storeBytes d p ?b) (int (p + 8)) xs = Inr (storeBytes (storeBytes d p ?b) (p + 8) ?bs)"
    using Cons.prems by (intro Cons.IH) simp
  have "storeBytes (storeBytes d p ?b) (p + 8) ?bs = storeBytes d p (?b @ ?bs)"
    using Cons.prems len by (intro storeBytes_then_next) simp_all
  then show ?case
    unfolding quatArrayLoop.simps w using l by simp
qed

text \<open>The count of an array and then the bytes of its loop.\<close>

lemma array_written:
  assumes "p + (2 + length bs) \<le> length d"
    and "\<And>d'. length d' = length d \<Longrightarrow> loop d' (int (p + 2)) = Inr (storeBytes d' (p + 2) bs)"
  shows "bindE (setUint16 d (int p) (JSNumber (Finite (real n))) LITTLE_ENDIAN) (\<lambda>d1.
       bindE (loop d1 (int p + 2)) (\<lambda>d2. Inr (m, propertyWritten f (s\<lparr>data := d2\<rparr>)))) =
     Inr (m, propertyWritten f (s\<lparr>data := storeBytes d p (countBytes n @ bs)\<rparr>))"
proof -
  let ?b = "countBytes n"
  have e: "int (p + 2) = int p + 2"
    by simp
  have w: "setUint16 d (int p) (JSNumber (Finite (real n))) LITTLE_ENDIAN = Inr (storeBytes d p ?b)"
    using assms(1) setUint16_fits [of "int p" d "Finite (real n)" LITTLE_ENDIAN]
    unfolding ToIntegerOrZero_nat by (simp add: countBytes_def)
  have "length (storeBytes d p ?b) = length d"
    using assms(1) by simp
  from assms(2) [OF this]
  have "loop (storeBytes d p ?b) (int (p + 2)) = Inr (storeBytes (storeBytes d p ?b) (p + 2) bs)" .
  also have "storeBytes (storeBytes d p ?b) (p + 2) bs = storeBytes d p (?b @ bs)"
    using assms(1) by (intro storeBytes_then_next) simp_all
  finally have "loop (storeBytes d p ?b) (int p + 2) = Inr (storeBytes d p (?b @ bs))"
    unfolding e .
  then show ?thesis
    unfolding w by simp
qed

lemma appendQuatArray_written:
  assumes "validQuatArray v = Inr True" and "p + (2 + length (elements v) * 8) \<le> length (data s)"
  shows "appendQuatArray P (int p) f v s =
     Inr (2 + length (elements v) * 8,
          propertyWritten f (s\<lparr>data := storeBytes (data s) p (serializedBytes P QuatArray v)\<rparr>))"
proof -
  have len: "length (concat (map (quatBytes P) (elements v))) = 8 * length (elements v)"
    by (rule length_concat_fixed) simp
  have "bindE (setUint16 (data s) (int p) (JSNumber (Finite (real (length (elements v))))) LITTLE_ENDIAN) (\<lambda>d1.
       bindE (quatArrayLoop P d1 (int p + 2) (elements v)) (\<lambda>d2.
         Inr (2 + length (elements v) * 8, propertyWritten f (s\<lparr>data := d2\<rparr>)))) =
     Inr (2 + length (elements v) * 8, propertyWritten f (s\<lparr>data := storeBytes (data s) p
       (countBytes (length (elements v)) @ concat (map (quatBytes P) (elements v)))\<rparr>))"
    using assms(2) len
    by (intro array_written [where loop = "\<lambda>d i. quatArrayLoop P d i (elements v)"] quatArrayLoop_fits)
      simp_all
  then show ?thesis
    using assms by (simp add: appendQuatArray_def byteLength_def)
qed

lemma appendQuatValue_written:
  assumes "validQuatValue v = Inr True" and "p + 8 \<le> length (data s)"
  shows "appendQuatValue P (int p) f v s =
     Inr (8, propertyWritten f (s\<lparr>data := storeBytes (data s) p (serializedBytes P QuatValue v)\<rparr>))"
  using assms
  by (simp add: appendQuatValue_def byteLength_def setter_fits quatBytes_def)

lemma appendRectValue_written:
  assumes "validRectValue v = Inr True" and "p + 16 \<le> length (data s)"
  shows "appendRectValue (int p) f v s =
     Inr (16, propertyWritten f (s\<lparr>data := storeBytes (data s) p (serializedBytes P RectValue v)\<rparr>))"
proof -
  from assms(1) obtain x y w h where
    "getPath v [''x''] = Inr (JSNumber x)"
    "getPath v [''y''] = Inr (JSNumber y)"
    "getPath v [''width''] = Inr (JSNumber w)"
    "getPath v [''height''] = Inr (JSNumber h)"
    unfolding validRectValue_def conj_seq_True
    by (auto dest!: typeof_is_number)
  then show ?thesis
    using assms
    by (simp add: appendRectValue_def byteLength_def setter_fits storeBytes_then_next
        propertyNumber_number uintBytes_def del: ToIntegerOrZero.simps)
qed

lemma appendStringValue_written:
  assumes "validStringValue v = Inr True"
    and "p + (2 + length (TextEncoder_encode P (stringChars v))) \<le> length (data s)"
  shows "appendStringValue P (int p) f v s =
     Inr (2 + length (TextEncoder_encode P (stringChars v)),
          propertyWritten f (s\<lparr>data := storeBytes (data s) p (serializedBytes P StringValue v)\<rparr>))"
  using assms
  by (simp add: appendStringValue_def byteLength_def setter_fits setUint8Loop_after_count
      countBytes_def Let_def del: ToIntegerOrZero.simps)

lemma valid_uint_number:
  "validUint8Value v = Inr True \<Longrightarrow> \<exists>n. v = JSNumber n"
  "validUint16Value v = Inr True \<Longrightarrow> \<exists>n. v = JSNumber n"
  "validUint32Value v = Inr True \<Longrightarrow> \<exists>n. v = JSNumber n"
  by (cases v; simp add: validUint8Value_def validUint16Value_def validUint32Value_def)+

lemma validUint64Value_bigint:
  "validUint64Value v = Inr True \<Longrightarrow> \<exists>i. v = JSBigInt i"
  by (cases v) (simp_all add: validUint64Value_def)

lemma appendUint8Value_written:
  assumes "validUint8Value v = Inr True" and "p + 1 \<le> length (data s)"
  shows "appendUint8Value (int p) f v s =
     Inr (1, propertyWritten f (s\<lparr>data := storeBytes (data s) p (serializedBytes P Uint8Value v)\<rparr>))"
proof -
  from valid_uint_number(1) [OF assms(1)] obtain n where v: "v = JSNumber n" ..
  show ?thesis
    using assms unfolding v
    by (simp add: appendUint8Value_def byteLength_def setter_fits uintBytes_def
        del: ToIntegerOrZero.simps)
qed

lemma appendUint16Value_written:
  assumes "validUint16Value v = Inr True" and "p + 2 \<le> length (data s)"
  shows "appendUint16Value (int p) f v e s =
     Inr (2, propertyWritten f (s\<lparr>data := storeBytes (data s) p (serializedBytes P (Uint16Value e) v)\<rparr>))"
proof -
  from valid_uint_number(2) [OF assms(1)] obtain n where v: "v = JSNumber n" ..
  show ?thesis
    using assms unfolding v
    by (simp add: appendUint16Value_def byteLength_def setter_fits uintBytes_def
        del: ToIntegerOrZero.simps)
qed

lemma appendUint32Value_written:
  assumes "validUint32Value v = Inr True" and "p + 4 \<le> length (data s)"
  shows "appendUint32Value (int p) f v e s =
     Inr (4, propertyWritten f (s\<lparr>data := storeBytes (data s) p (serializedBytes P (Uint32Value e) v)\<rparr>))"
proof -
  from valid_uint_number(3) [OF assms(1)] obtain n where v: "v = JSNumber n" ..
  show ?thesis
    using assms unfolding v
    by (simp add: appendUint32Value_def byteLength_def setter_fits uintBytes_def
        del: ToIntegerOrZero.simps)
qed

lemma appendUint64Value_written:
  assumes "validUint64Value v = Inr True" and "p + 8 \<le> length (data s)"
  shows "appendUint64Value (int p) f v e s =
     Inr (8, propertyWritten f (s\<lparr>data := storeBytes (data s) p (serializedBytes P (Uint64Value e) v)\<rparr>))"
proof -
  from validUint64Value_bigint [OF assms(1)] obtain i where v: "v = JSBigInt i" ..
  show ?thesis
    using assms unfolding v
    by (simp add: appendUint64Value_def byteLength_def setter_fits bigintOf_def)
qed

lemma instanceof_Uuid_iff: "instanceof_Uuid v \<longleftrightarrow> (\<exists>u. v = JSUuid u)"
  by (cases v) (simp_all add: instanceof_Uuid_def)

lemma setBigUint128_Uuid:
  assumes "p + 16 \<le> length d"
  shows "setBigUint128 d (int p) (uint (u :: 128 word)) BIG_ENDIAN = Inr (storeBytes d p (uuidBytes (JSUuid u)))"
proof -
  have "uint u < 2 ^ 128"
    using uint_bounded [of u] by simp
  then have "\<not> uint u > MAX_U128_VALUE"
    by (simp add: MAX_U128_VALUE_def)
  then show ?thesis
    using uuid_halves [of "uint u"]
    by (simp add: setBigUint128_fits [OF assms] BIG_ENDIAN_def Let_def uuidBytes_def)
qed

lemma length_uuidBytes [simp]: "length (uuidBytes (JSUuid u)) = 16"
  by (simp add: uuidBytes_def)

lemma uuidArrayLoop_fits:
  "\<forall>x \<in> set xs. instanceof_Uuid x \<Longrightarrow> p + 16 * length xs \<le> length d \<Longrightarrow>
   uuidArrayLoop d (int p) xs = Inr (storeBytes d p (concat (map uuidBytes xs)))"
proof (induction xs arbitrary: d p)
  case Nil
  then show ?case by (simp add: storeBytes_def)
next
  case (Cons x xs)
  from Cons.prems(1) obtain u where x: "x = JSUuid u"
    by (auto simp: instanceof_Uuid_iff)
  let ?b = "uuidBytes (JSUuid u)"
  let ?bs = "concat (map uuidBytes xs)"
  have "\<forall>x \<in> set xs. length (uuidBytes x) = 16"
    using Cons.prems(1) by (auto simp: instanceof_Uuid_iff)
  then have len: "length ?bs = 16 * length xs"
    by (rule length_concat_fixed)
  have w: "setBigUint128 d (int p) (uint u) BIG_ENDIAN = Inr (storeBytes d p ?b)"
    using Cons.prems by (intro setBigUint128_Uuid) simp
  have l: "uuidArrayLoop (storeBytes d p ?b) (int (p + 16)) xs = Inr (storeBytes (storeBytes d p ?b) (p + 16) ?bs)"
    using Cons.prems by (intro Cons.IH) simp_all
  have "storeBytes (storeBytes d p ?b) (p + 16) ?bs = storeBytes d p (?b @ ?bs)"
    using Cons.prems len by (intro storeBytes_then_next) simp_all
  then show ?case
    unfolding uuidArrayLoop.simps x using l w by (simp add: Uuid_value_def)
qed

lemma appendUuidArray_written:
  assumes "validUuidArray v = Inr True" and "p + (2 + length (elements v) * 16) \<le> length (data s)"
  shows "appendUuidArray (int p) f v s =
     Inr (2 + length (elements v) * 16,
          propertyWritten f (s\<lparr>data := storeBytes (data s) p (serializedBytes P UuidArray v)\<rparr>))"
proof -
  have el: "\<forall>x \<in> set (elements v). instanceof_Uuid x"
    using assms(1) unfolding validUuidArray_def conj_seq_True by (simp add: every_True)
  then have "\<forall>x \<in> set (elements v). length (uuidBytes x) = 16"
    by (auto simp: instanceof_Uuid_iff)
  then have len: "length (concat (map uuidBytes (elements v))) = 16 * length (elements v)"
    by (rule length_concat_fixed)
  have "bindE (setUint16 (data s) (int p) (JSNumber (Finite (real (length (elements v))))) LITTLE_ENDIAN) (\<lambda>d1.
       bindE (uuidArrayLoop d1 (int p + 2) (elements v)) (\<lambda>d2.
         Inr (2 + length (elements v) * 16, propertyWritten f (s\<lparr>data := d2\<rparr>)))) =
     Inr (2 + length (elements v) * 16, propertyWritten f (s\<lparr>data := storeBytes (data s) p
       (countBytes (length (elements v)) @ concat (map uuidBytes (elements v)))\<rparr>))"
    using assms(2) len el
    by (intro array_written [where loop = "\<lambda>d i. uuidArrayLoop d i (elements v)"] uuidArrayLoop_fits)
      simp_all
  then show ?thesis
    using assms by (simp add: appendUuidArray_def byteLength_def)
qed

lemma appendUuidValue_null:
  assumes "p + 2 \<le> length (data s)"
  shows "appendUuidValue (int p) f (JSUuid 0) s = Inr (2, propertyWritten f (s\<lparr>data := storeBytes (data s) p
      (int_bytes LITTLE_ENDIAN 2 0)\<rparr>))"
  using assms
  by (simp add: appendUuidValue_def validUuidValue_def instanceof_Uuid_def Uuid_isNull_def
      byteLength_def setter_fits)

lemma appendUuidValue_nonnull:
  assumes "u \<noteq> 0" and "p + 18 \<le> length (data s)"
  shows "appendUuidValue (int p) f (JSUuid u) s = Inr (18, propertyWritten f (s\<lparr>data := storeBytes (data s) p
      (int_bytes LITTLE_ENDIAN 2 16 @ int_bytes BIG_ENDIAN 16 (uint u))\<rparr>))"
proof -
  have w: "setBigUint128 (storeBytes (data s) p (int_bytes LITTLE_ENDIAN 2 16)) (int p + 2) (uint u) BIG_ENDIAN
      = Inr (storeBytes (storeBytes (data s) p (int_bytes LITTLE_ENDIAN 2 16)) (p + 2) (uuidBytes (JSUuid u)))"
    using assms(2) setBigUint128_Uuid [of "p + 2" "storeBytes (data s) p (int_bytes LITTLE_ENDIAN 2 16)" u]
    by (simp add: add.commute)
  show ?thesis
    using assms w
    by (simp add: appendUuidValue_def validUuidValue_def instanceof_Uuid_def Uuid_isNull_def
        Uuid_value_def byteLength_def setter_fits storeBytes_then_next2 uuidBytes_def)
qed

lemma appendUuidValue_written:
  assumes "validUuidValue v = Inr True" and "p + (if v = JSUuid 0 then 2 else 18) \<le> length (data s)"
  shows "appendUuidValue (int p) f v s =
     Inr (if v = JSUuid 0 then 2 else 18,
          propertyWritten f (s\<lparr>data := storeBytes (data s) p (serializedBytes P UuidValue v)\<rparr>))"
proof -
  from assms(1) obtain u where v: "v = JSUuid u"
    by (auto simp: validUuidValue_def instanceof_Uuid_iff)
  show ?thesis
  proof (cases "u = 0")
    case True
    then show ?thesis
      using assms(2) appendUuidValue_null [of p s f] unfolding v
      by (simp add: countBytes_def)
  next
    case False
    then show ?thesis
      using assms(2) appendUuidValue_nonnull [of u p s f] unfolding v
      by (simp add: countBytes_def uuidBytes_def)
  qed
qed

lemma appendVec2Value_written:
  assumes "validVec2Value v = Inr True" and "p + 8 \<le> length (data s)"
  shows "appendVec2Value P (int p) f v s =
     Inr (8, propertyWritten f (s\<lparr>data := storeBytes (data s) p (serializedBytes P Vec2Value v)\<rparr>))"
proof -
  from assms(1) obtain x y where
    "getPath v [''x''] = Inr (JSNumber x)"
    "getPath v [''y''] = Inr (JSNumber y)"
    unfolding validVec2Value_def conj_seq_True
    by (auto dest!: typeof_is_number)
  then show ?thesis
    using assms
    by (simp add: appendVec2Value_def byteLength_def setter_fits storeBytes_then_next
        propertyNumber_number float32Bytes_def)
qed

lemma appendVec3Value_written:
  assumes "validVec3Value v = Inr True" and "p + 12 \<le> length (data s)"
  shows "appendVec3Value P (int p) f v s =
     Inr (12, propertyWritten f (s\<lparr>data := storeBytes (data s) p (serializedBytes P Vec3Value v)\<rparr>))"
proof -
  from assms(1) obtain x y z where
    "getPath v [''x''] = Inr (JSNumber x)"
    "getPath v [''y''] = Inr (JSNumber y)"
    "getPath v [''z''] = Inr (JSNumber z)"
    unfolding validVec3Value_def conj_seq_True
    by (auto dest!: typeof_is_number)
  then show ?thesis
    using assms
    by (simp add: appendVec3Value_def byteLength_def setter_fits storeBytes_then_next
        propertyNumber_number float32Bytes_def vec3Bytes_def)
qed

lemma vec3ArrayLoop_fits:
  "\<forall>x \<in> set xs. validVec3Value x = Inr True \<Longrightarrow> p + 12 * length xs \<le> length d \<Longrightarrow>
   vec3ArrayLoop P d (int p) xs = Inr (storeBytes d p (concat (map (vec3Bytes P) xs)))"
proof (induction xs arbitrary: d p)
  case Nil
  then show ?case by (simp add: storeBytes_def)
next
  case (Cons e xs)
  from Cons.prems(1) have "validVec3Value e = Inr True" by simp
  then obtain x y z where g:
    "getPath e [''x''] = Inr (JSNumber x)"
    "getPath e [''y''] = Inr (JSNumber y)"
    "getPath e [''z''] = Inr (JSNumber z)"
    unfolding validVec3Value_def conj_seq_True
    by (auto dest!: typeof_is_number)
  let ?b = "vec3Bytes P e"
  let ?bs = "concat (map (vec3Bytes P) xs)"
  have len: "length ?bs = 12 * length xs"
    by (rule length_concat_fixed) simp
  have l: "vec3ArrayLoop P (storeBytes d p ?b) (int (p + 12)) xs = Inr (storeBytes (storeBytes d p ?b) (p + 12) ?bs)"
    using Cons.prems by (intro Cons.IH) simp_all
  have m: "storeBytes (storeBytes d p ?b) (p + 12) ?bs = storeBytes d p (?b @ ?bs)"
    using Cons.prems len by (intro storeBytes_then_next) simp_all
  have b: "?b = int_bytes LITTLE_ENDIAN 4 (uint (float32_bits P x)) @
      int_bytes LITTLE_ENDIAN 4 (uint (float32_bits P y)) @ int_bytes LITTLE_ENDIAN 4 (uint (float32_bits P z))"
    using g by (simp add: vec3Bytes_def float32Bytes_def propertyNumber_number)
  have "bindE (setFloat32 P d (int p) (JSNumber x) LITTLE_ENDIAN) (\<lambda>d1.
        bindE (setFloat32 P d1 (int p + 4) (JSNumber y) LITTLE_ENDIAN) (\<lambda>d2.
        bindE (setFloat32 P d2 (int p + 8) (JSNumber z) LITTLE_ENDIAN) (\<lambda>d3.
        vec3ArrayLoop P d3 (int p + 12) xs))) = vec3ArrayLoop P (storeBytes d p ?b) (int p + 12) xs"
    unfolding b using Cons.prems(2)
    by (simp add: setter_fits storeBytes_then_next)
  then show ?case
    using l g m by simp
qed

lemma appendVec3Array_written:
  assumes "validVec3Array v = Inr True" and "p + (2 + length (elements v) * 12) \<le> length (data s)"
  shows "appendVec3Array P (int p) f v s =
     Inr (2 + length (elements v) * 12,
          propertyWritten f (s\<lparr>data := storeBytes (data s) p (serializedBytes P Vec3Array v)\<rparr>))"
proof -
  have el: "\<forall>x \<in> set (elements v). validVec3Value x = Inr True"
    using assms(1) unfolding validVec3Array_def conj_seq_True
    by (simp add: every_True validVec3Value_def)
  have len: "length (concat (map (vec3Bytes P) (elements v))) = 12 * length (elements v)"
    by (rule length_concat_fixed) simp
  have "bindE (setUint16 (data s) (int p) (JSNumber (Finite (real (length (elements v))))) LITTLE_ENDIAN) (\<lambda>d1.
       bindE (vec3ArrayLoop P d1 (int p + 2) (elements v)) (\<lambda>d2.
         Inr (2 + length (elements v) * 12, propertyWritten f (s\<lparr>data := d2\<rparr>)))) =
     Inr (2 + length (elements v) * 12, propertyWritten f (s\<lparr>data := storeBytes (data s) p
       (countBytes (length (elements v)) @ concat (map (vec3Bytes P) (elements v)))\<rparr>))"
    using assms(2) len el
    by (intro array_written [where loop = "\<lambda>d i. vec3ArrayLoop P d i (elements v)"] vec3ArrayLoop_fits)
      simp_all
  then show ?thesis
    using assms by (simp add: appendVec3Array_def byteLength_def)
qed

text \<open>The bytes that the loop of \<open>appendBooleanArray\<close> writes, from a bit position on.\<close>

lemma packedBooleans_Nil [simp]: "packedBooleans [] = []"
  by (simp add: packedBooleans.simps)

lemma packedBooleans_nonempty:
  "xs \<noteq> [] \<Longrightarrow> packedBooleans xs = word_of_int (bitsValue (take 8 xs)) # packedBooleans (drop 8 xs)"
  by (subst packedBooleans.simps) simp

lemma eighths: "0 < n \<Longrightarrow> Suc ((n - 8 + 7) div 8) = (n + 7) div (8::nat)"
proof (cases "8 \<le> n")
  case True
  then obtain m where "n = m + 8"
    using le_Suc_ex [of 8 n] by (auto simp: add.commute)
  then show ?thesis by simp
next
  case False
  moreover assume "0 < n"
  ultimately have "n + 7 < 16" "8 \<le> n + 7" "n - 8 = 0"
    by simp_all
  then have "(n + 7) div 8 = 1"
    by (simp add: div_eq_dividend_iff Euclidean_Rings.div_nat_eqI)
  then show ?thesis
    using \<open>n - 8 = 0\<close> by simp
qed

lemma length_packedBooleans: "length (packedBooleans xs) = (length xs + 7) div 8"
proof (induction "length xs" arbitrary: xs rule: less_induct)
  case less
  show ?case
  proof (cases "xs = []")
    case True
    then show ?thesis by simp
  next
    case False
    then have "length (drop 8 xs) < length xs"
      by simp
    then have "length (packedBooleans (drop 8 xs)) = (length (drop 8 xs) + 7) div 8"
      by (rule less.hyps)
    then have "length (packedBooleans xs) = Suc ((length xs - 8 + 7) div 8)"
      unfolding packedBooleans_nonempty [OF False] by simp
    moreover have "0 < length xs"
      using False by simp
    ultimately show ?thesis
      by (simp only: eighths)
  qed
qed

lemma or_push_bit:
  fixes c :: int
  assumes "0 \<le> c" and "c < 2 ^ b"
  shows "c OR push_bit b 1 = c + 2 ^ b"
proof -
  have "c div 2 ^ b = 0"
    using assms by (simp add: div_pos_pos_trivial)
  then have "\<not> bit c b"
    by (simp add: bit_iff_odd)
  then show ?thesis
    using set_bit_eq [of b c] by (simp add: set_bit_def)
qed

lemma booleanArrayLoop_fits:
  "b < 8 \<Longrightarrow> 0 \<le> c \<Longrightarrow> c < 2 ^ b \<Longrightarrow>
   p + (if xs = [] then 0 else (b + length xs + 7) div 8) \<le> length d \<Longrightarrow>
   booleanArrayLoop d (int p) b c xs =
     Inr (storeBytes d p
       (if xs = [] then []
        else word_of_int (c + 2 ^ b * bitsValue (take (8 - b) xs)) # packedBooleans (drop (8 - b) xs)))"
proof (induction xs arbitrary: d p b c)
  case Nil
  then show ?case by (simp add: storeBytes_def)
next
  case (Cons x xs)
  define bx :: int where "bx = (if ToBoolean x then 1 else 0)"
  define c1 where "c1 = (if ToBoolean x then c OR push_bit b 1 else c)"
  have c1: "c1 = c + 2 ^ b * bx"
    using Cons.prems(2,3) or_push_bit [of c b] by (simp add: bx_def c1_def)
  have bx: "0 \<le> bx" "bx \<le> 1"
    by (simp_all add: bx_def)
  have nn: "0 \<le> 2 ^ b * bx"
    using bx by simp
  have le: "2 ^ b * bx \<le> (2 ^ b :: int)"
    using bx by (simp add: mult_left_le)
  have "0 \<le> c1"
    unfolding c1 using Cons.prems(2) nn by linarith
  moreover have "c1 < 2 ^ b + 2 ^ b"
    unfolding c1 using Cons.prems(3) le by linarith
  ultimately have c1_bounds: "0 \<le> c1" "c1 < 2 ^ (b + 1)"
    by simp_all
  have "8 - b = Suc (7 - b)"
    using Cons.prems(1) by simp
  then have tk: "take (8 - b) (x # xs) = x # take (7 - b) xs" "drop (8 - b) (x # xs) = drop (7 - b) xs"
    by simp_all
  have goal: "word_of_int (c + 2 ^ b * bitsValue (take (8 - b) (x # xs))) # packedBooleans (drop (8 - b) (x # xs))
      = (word_of_int (c1 + 2 ^ (b + 1) * bitsValue (take (7 - b) xs)) :: byte) # packedBooleans (drop (7 - b) xs)"
    unfolding tk c1 by (simp add: bx_def algebra_simps)
  have step: "booleanArrayLoop d (int p) b c (x # xs) =
      (if (b + 1) mod 8 = 0 \<or> xs = [] then
         bindE (setUint8 d (int p) (JSNumber (Finite (of_int c1)))) (\<lambda>d'.
         booleanArrayLoop d' (int p + 1) ((b + 1) mod 8) 0 xs)
       else booleanArrayLoop d (int p) ((b + 1) mod 8) c1 xs)"
    by (simp add: Let_def c1_def)
  show ?case
  proof (cases "(b + 1) mod 8 = 0 \<or> xs = []")
    case False
    then have nz: "(b + 1) mod 8 \<noteq> 0" and xs: "xs \<noteq> []"
      by simp_all
    from nz Cons.prems(1) have "b + 1 < 8"
      by presburger
    then have b: "b + 1 < 8" "(b + 1) mod 8 = b + 1" "8 - (b + 1) = 7 - b"
      by simp_all
    have "booleanArrayLoop d (int p) (b + 1) c1 xs =
        Inr (storeBytes d p
          (if xs = [] then []
           else word_of_int (c1 + 2 ^ (b + 1) * bitsValue (take (8 - (b + 1)) xs))
                  # packedBooleans (drop (8 - (b + 1)) xs)))"
      using Cons.prems(4) b(1) xs c1_bounds by (intro Cons.IH) simp_all
    then show ?thesis
      unfolding step b goal using False xs by simp
  next
    case True
    have one: "p + 1 \<le> length d"
      using Cons.prems(4) by simp
    have w: "setUint8 d (int p) (JSNumber (Finite (of_int c1))) = Inr (storeBytes d p [word_of_int c1])"
      using one setUint8_fits [of "int p" d "Finite (of_int c1)"]
      unfolding ToIntegerOrZero_int by (simp add: int_bytes_def)
    show ?thesis
    proof (cases "xs = []")
      case xs: True
      have "p \<le> length d"
        using one by simp
      then show ?thesis
        unfolding step w using xs goal by simp
    next
      case xs: False
      with True have "(b + 1) mod 8 = 0"
        by simp
      with Cons.prems(1) have b7: "b = 7"
        by presburger
      have e: "int (p + 1) = int p + 1"
        by simp
      have room: "(p + 1) + (if xs = [] then 0 else (0 + length xs + 7) div 8) \<le> length (storeBytes d p [word_of_int c1 :: byte])"
        using Cons.prems(4) xs one unfolding b7 by simp
      have "booleanArrayLoop (storeBytes d p [word_of_int c1]) (int (p + 1)) 0 0 xs =
          Inr (storeBytes (storeBytes d p [word_of_int c1]) (p + 1)
            (if xs = [] then []
             else word_of_int (0 + 2 ^ 0 * bitsValue (take (8 - 0) xs)) # packedBooleans (drop (8 - 0) xs)))"
        using room by (intro Cons.IH) simp_all
      also have "(if xs = [] then []
             else word_of_int (0 + 2 ^ 0 * bitsValue (take (8 - 0) xs)) # packedBooleans (drop (8 - 0) xs))
          = packedBooleans xs"
        using xs by (simp add: packedBooleans_nonempty)
      also have "storeBytes (storeBytes d p [word_of_int c1]) (p + 1) (packedBooleans xs)
          = storeBytes d p ([word_of_int c1] @ packedBooleans xs)"
        using Cons.prems(4) xs unfolding b7
        by (intro storeBytes_then_next) (simp_all add: length_packedBooleans)
      finally have "booleanArrayLoop (storeBytes d p [word_of_int c1]) (int p + 1) 0 0 xs =
          Inr (storeBytes d p (word_of_int c1 # packedBooleans xs))"
        unfolding e by simp
      moreover have "word_of_int (c + 2 ^ b * bitsValue (take (8 - b) (x # xs))) # packedBooleans (drop (8 - b) (x # xs))
          = (word_of_int c1 :: byte) # packedBooleans xs"
        unfolding goal unfolding b7 by simp
      ultimately show ?thesis
        unfolding step w using True xs \<open>(b + 1) mod 8 = 0\<close> by simp
    qed
  qed
qed

lemma ceiling_eighth: "nat \<lceil>real n / 8\<rceil> = (n + 7) div 8"
proof -
  have "\<lceil>real n / 8\<rceil> = - \<lfloor>- (real_of_int (int n) / real_of_int 8)\<rfloor>"
    by (simp add: ceiling_def)
  also have "\<dots> = - ((- int n) div 8)"
    by (simp only: minus_divide_left of_int_minus [symmetric] floor_divide_of_int_eq)
  also have "\<dots> = (int n + 7) div 8"
    by presburger
  finally show ?thesis
    by (simp add: nat_div_distrib nat_add_distrib)
qed

lemma appendBooleanArray_written:
  assumes "validBooleanArray v = Inr True"
    and "p + (2 + (length (elements v) + 7) div 8) \<le> length (data s)"
  shows "appendBooleanArray (int p) f v s =
     Inr (2 + (length (elements v) + 7) div 8,
          propertyWritten f (s\<lparr>data := storeBytes (data s) p (serializedBytes P BooleanArray v)\<rparr>))"
proof -
  have loop: "booleanArrayLoop d' (int (p + 2)) 0 0 (elements v) =
      Inr (storeBytes d' (p + 2) (packedBooleans (elements v)))" if "length d' = length (data s)" for d'
  proof -
    have "booleanArrayLoop d' (int (p + 2)) 0 0 (elements v) =
        Inr (storeBytes d' (p + 2)
          (if elements v = [] then []
           else word_of_int (0 + 2 ^ 0 * bitsValue (take (8 - 0) (elements v)))
                  # packedBooleans (drop (8 - 0) (elements v))))"
      using assms(2) that by (intro booleanArrayLoop_fits) simp_all
    then show ?thesis
      by (cases "elements v = []") (simp_all add: packedBooleans_nonempty)
  qed
  have "bindE (setUint16 (data s) (int p) (JSNumber (Finite (real (length (elements v))))) LITTLE_ENDIAN) (\<lambda>d1.
       bindE (booleanArrayLoop d1 (int p + 2) 0 0 (elements v)) (\<lambda>d2.
         Inr (2 + (length (elements v) + 7) div 8, propertyWritten f (s\<lparr>data := d2\<rparr>)))) =
     Inr (2 + (length (elements v) + 7) div 8, propertyWritten f (s\<lparr>data := storeBytes (data s) p
       (countBytes (length (elements v)) @ packedBooleans (elements v))\<rparr>))"
    using assms(2) loop
    by (intro array_written [where loop = "\<lambda>d i. booleanArrayLoop d i 0 0 (elements v)"])
      (simp_all add: length_packedBooleans)
  then show ?thesis
    using assms by (simp add: appendBooleanArray_def byteLength_def ceiling_eighth)
qed

lemmas append_defs =
  appendAACubeValue_def appendArrayBufferValue_def appendBooleanArray_def appendBooleanValue_def
  appendColorValue_def appendFloat32Value_def appendQuatArray_def appendQuatValue_def
  appendRectValue_def appendStringValue_def appendUint8Value_def appendUint16Value_def
  appendUint32Value_def appendUint64Value_def appendUuidArray_def appendUuidValue_def
  appendVec2Value_def appendVec3Array_def appendVec3Value_def
section \<open>The outcomes of every appender\<close>

lemma append_throws:
  "validityCheck a v = Inl e \<Longrightarrow> appendValue P a p f v s = Inl e"
  by (cases a) (simp_all add: append_defs)

lemma append_invalid:
  "validityCheck a v = Inr False \<Longrightarrow> \<exists>msg. appendValue P a p f v s = Inr (0, console_error msg s)"
  by (cases a) (simp_all add: append_defs, blast+)

lemma append_nofit:
  assumes "validityCheck a v = Inr True"
    and "\<not> p + int (serializedSize P a v) \<le> int (length (data s))"
  shows "appendValue P a p f v s = Inr (0, appendStatePartial s)"
proof (cases a)
  case UuidValue
  with assms(1) obtain u where v: "v = JSUuid u"
    by (auto simp: validUuidValue_def instanceof_Uuid_iff)
  show ?thesis
    using assms unfolding UuidValue v
    by (simp add: appendUuidValue_def validUuidValue_def instanceof_Uuid_def Uuid_isNull_def
        byteLength_def split: if_splits)
next
  case BooleanArray
  then show ?thesis
    using assms by (simp add: appendBooleanArray_def byteLength_def ceiling_eighth)
qed (use assms in \<open>simp_all add: append_defs byteLength_def Let_def mult.commute\<close>)

lemma append_written:
  assumes "validityCheck a v = Inr True" and "p + serializedSize P a v \<le> length (data s)"
  shows "appendValue P a (int p) f v s =
     Inr (serializedSize P a v,
          propertyWritten f (s\<lparr>data := storeBytes (data s) p (serializedBytes P a v)\<rparr>))"
proof (cases a)
  case AACubeValue
  then show ?thesis using assms appendAACubeValue_written [of v p s P f] by simp
next
  case ArrayBufferValue
  then show ?thesis using assms appendArrayBufferValue_written [of v p s f P] by simp
next
  case BooleanArray
  then show ?thesis using assms appendBooleanArray_written [of v p s f P] by simp
next
  case BooleanValue
  then show ?thesis using assms appendBooleanValue_written [of v p s f P] by simp
next
  case ColorValue
  then show ?thesis using assms appendColorValue_written [of v p s f P] by simp
next
  case (Float32Value e)
  then show ?thesis using assms appendFloat32Value_written [of v p s P f e] by simp
next
  case QuatArray
  then show ?thesis using assms appendQuatArray_written [of v p s P f] by (simp add: mult.commute)
next
  case QuatValue
  then show ?thesis using assms appendQuatValue_written [of v p s P f] by simp
next
  case RectValue
  then show ?thesis using assms appendRectValue_written [of v p s f P] by simp
next
  case StringValue
  then show ?thesis using assms appendStringValue_written [of v p P s f] by simp
next
  case Uint8Value
  then show ?thesis using assms appendUint8Value_written [of v p s f P] by simp
next
  case (Uint16Value e)
  then show ?thesis using assms appendUint16Value_written [of v p s f e P] by simp
next
  case (Uint32Value e)
  then show ?thesis using assms appendUint32Value_written [of v p s f e P] by simp
next
  case (Uint64Value e)
  then show ?thesis using assms appendUint64Value_written [of v p s f e P] by simp
next
  case UuidArray
  then show ?thesis using assms appendUuidArray_written [of v p s f P] by (simp add: mult.commute)
next
  case UuidValue
  then show ?thesis using assms appendUuidValue_written [of v p s f P] by simp
next
  case Vec2Value
  then show ?thesis using assms appendVec2Value_written [of v p s P f] by simp
next
  case Vec3Array
  then show ?thesis using assms appendVec3Array_written [of v p s P f] by (simp add: mult.commute)
next
  case Vec3Value
  then show ?thesis using assms appendVec3Value_written [of v p s P f] by simp
qed

text \<open>The serialized bytes of a valid value are as many as its serialized size.\<close>

lemma length_serializedBytes:
  assumes "validityCheck a v = Inr True"
  shows "length (serializedBytes P a v) = serializedSize P a v"
proof (cases a)
  case UuidArray
  have "\<forall>x \<in> set (elements v). instanceof_Uuid x"
    using assms unfolding UuidArray validityCheck.simps validUuidArray_def conj_seq_True
    by (simp add: every_True)
  then have "\<forall>x \<in> set (elements v). length (uuidBytes x) = 16"
    by (auto simp: instanceof_Uuid_iff)
  then have "length (concat (map uuidBytes (elements v))) = 16 * length (elements v)"
    by (rule length_concat_fixed)
  then show ?thesis
    unfolding UuidArray by simp
next
  case UuidValue
  with assms obtain u where v: "v = JSUuid u"
    by (auto simp: validUuidValue_def instanceof_Uuid_iff)
  show ?thesis
    unfolding UuidValue v by simp
next
  case QuatArray
  have "length (concat (map (quatBytes P) (elements v))) = 8 * length (elements v)"
    by (rule length_concat_fixed) simp
  then show ?thesis
    unfolding QuatArray by simp
next
  case Vec3Array
  have "length (concat (map (vec3Bytes P) (elements v))) = 12 * length (elements v)"
    by (rule length_concat_fixed) simp
  then show ?thesis
    unfolding Vec3Array by simp
qed (simp_all add: length_packedBooleans bigintOf_def)

text \<open>
  A valid value that passes the test of its size at a negative position: the first
  setter of every appender is called with the position itself, and throws.
\<close>

lemma append_negative:
  assumes "validityCheck a v = Inr True"
    and "p + int (serializedSize P a v) \<le> int (length (data s))" and "p < 0"
  shows "appendValue P a p f v s = Inl RangeError"
proof (cases a)
  case AACubeValue
  with assms(1) have "validAACubeValue v = Inr True"
    by simp
  then obtain x where "getPath v [''corner'', ''x''] = Inr (JSNumber x)"
    unfolding validAACubeValue_def conj_seq_True
    by (auto dest!: typeof_is_number)
  then show ?thesis
    using assms unfolding AACubeValue
    by (simp add: appendAACubeValue_def byteLength_def setter_negative)
next
  case ColorValue
  with assms(1) have "validColorValue v = Inr True"
    by simp
  then obtain x where "getPath v [''red''] = Inr (JSNumber x)"
    unfolding validColorValue_def conj_seq_True
    by (auto dest!: typeof_is_number)
  then show ?thesis
    using assms unfolding ColorValue
    by (simp add: appendColorValue_def byteLength_def setter_negative)
next
  case RectValue
  with assms(1) have "validRectValue v = Inr True"
    by simp
  then obtain x where "getPath v [''x''] = Inr (JSNumber x)"
    unfolding validRectValue_def conj_seq_True
    by (auto dest!: typeof_is_number)
  then show ?thesis
    using assms unfolding RectValue
    by (simp add: appendRectValue_def byteLength_def setter_negative)
next
  case Vec2Value
  with assms(1) have "validVec2Value v = Inr True"
    by simp
  then obtain x where "getPath v [''x''] = Inr (JSNumber x)"
    unfolding validVec2Value_def conj_seq_True
    by (auto dest!: typeof_is_number)
  then show ?thesis
    using assms unfolding Vec2Value
    by (simp add: appendVec2Value_def byteLength_def setter_negative)
next
  case Vec3Value
  with assms(1) have "validVec3Value v = Inr True"
    by simp
  then obtain x where "getPath v [''x''] = Inr (JSNumber x)"
    unfolding validVec3Value_def conj_seq_True
    by (auto dest!: typeof_is_number)
  then show ?thesis
    using assms unfolding Vec3Value
    by (simp add: appendVec3Value_def byteLength_def setter_negative)
next
  case (Uint64Value e)
  with assms(1) obtain i where v: "v = JSBigInt i"
    using validUint64Value_bigint [of v] by auto
  show ?thesis
    using assms unfolding Uint64Value v
    by (simp add: appendUint64Value_def byteLength_def setter_negative)
next
  case UuidValue
  with assms(1) obtain u where v: "v = JSUuid u"
    by (auto simp: validUuidValue_def instanceof_Uuid_iff)
  show ?thesis
    using assms unfolding UuidValue v
    by (simp add: appendUuidValue_def validUuidValue_def instanceof_Uuid_def Uuid_isNull_def
        byteLength_def setter_negative split: if_splits)
next
  case BooleanArray
  then show ?thesis
    using assms by (simp add: appendBooleanArray_def byteLength_def ceiling_eighth setter_negative)
qed (use assms in \<open>simp_all add: append_defs byteLength_def Let_def mult.commute setter_negative\<close>)
section \<open>When an appender raises a RangeError\<close>

lemma getProp_no_range: "getProp v k \<noteq> Inl RangeError"
  by (cases v) simp_all

lemma getPath_no_range: "getPath v ks \<noteq> Inl RangeError"
proof (induction ks arbitrary: v)
  case Nil
  show ?case by (simp add: getPath.simps)
next
  case (Cons k ks)
  show ?case
  proof (cases "getProp v k")
    case (Inl e)
    then show ?thesis using getProp_no_range [of v k] by (simp add: getPath.simps)
  next
    case (Inr x)
    then show ?thesis using Cons.IH [of x] by (simp add: getPath.simps)
  qed
qed

lemma typeof_is_Inl: "typeof_is m t = Inl e \<Longrightarrow> m = Inl e"
  by (cases m) (simp_all add: typeof_is_def)

lemma le_E_Inl: "le_E ma mb = Inl e \<Longrightarrow> ma = Inl e \<or> mb = Inl e"
  by (cases ma; cases mb) (simp_all add: le_E_def)

lemma conj_seq_Inl: "conj_seq cs = Inl e \<Longrightarrow> Inl e \<in> set cs"
proof (induction cs)
  case Nil
  then show ?case by simp
next
  case (Cons c cs)
  then show ?case by (cases c) (auto split: if_splits)
qed

lemma every_Inl: "every f xs = Inl e \<Longrightarrow> \<exists>x. f x = Inl e"
proof (induction xs)
  case Nil
  then show ?case by simp
next
  case (Cons x xs)
  then show ?case by (cases "f x") (auto split: if_splits)
qed

lemmas valid_defs =
  validAACubeValue_def validArrayBufferValue_def validBooleanArray_def validBooleanValue_def
  validColorValue_def validFloat32Value_def validQuatArray_def validQuatValue_def
  validRectValue_def validStringValue_def validUint8Value_def validUint16Value_def
  validUint32Value_def validUint64Value_def validUuidArray_def validUuidValue_def
  validVec2Value_def validVec3Array_def validVec3Value_def

lemma validityCheck_no_range: "validityCheck a v \<noteq> Inl RangeError"
proof
  assume "validityCheck a v = Inl RangeError"
  then show False
    by (cases a)
      (auto simp: valid_defs getPath_no_range getPath_no_range [symmetric]
        simp del: conj_seq.simps every.simps
        dest!: conj_seq_Inl every_Inl typeof_is_Inl le_E_Inl
          typeof_is_Inl [OF sym] le_E_Inl [OF sym] conj_seq_Inl [OF sym] every_Inl [OF sym])
qed

lemma append_at_position:
  assumes "validityCheck a v = Inr True"
    and "p + int (serializedSize P a v) \<le> int (length (data s))" and "0 \<le> p"
  shows "appendValue P a p f v s =
     Inr (serializedSize P a v,
          propertyWritten f (s\<lparr>data := storeBytes (data s) (nat p) (serializedBytes P a v)\<rparr>))"
proof -
  have "nat p + serializedSize P a v \<le> length (data s)"
    using assms(2,3) by linarith
  from append_written [OF assms(1) this, of f]
  show ?thesis
    using assms(3) by simp
qed

lemma append_RangeError:
  "appendValue P a p f v s = Inl RangeError \<longleftrightarrow>
   validityCheck a v = Inr True \<and> p + int (serializedSize P a v) \<le> int (length (data s)) \<and> p < 0"
proof (cases "validityCheck a v")
  case (Inl e)
  then show ?thesis
    using validityCheck_no_range [of a v] by (simp add: append_throws)
next
  case (Inr b)
  show ?thesis
  proof (cases b)
    case False
    with Inr show ?thesis using append_invalid [of a v P p f s] by auto
  next
    case True
    show ?thesis
    proof (cases "p + int (serializedSize P a v) \<le> int (length (data s))")
      case nofit: False
      with Inr True show ?thesis
        using append_nofit [of a v p P s f] by simp
    next
      case fit: True
      show ?thesis
      proof (cases "p < 0")
        case True
        with Inr \<open>b\<close> fit show ?thesis
          using append_negative [of a v p P s f] by simp
      next
        case False
        with Inr \<open>b\<close> fit show ?thesis
          using append_at_position [of a v p P s f] by simp
      qed
    qed
  qed
qed

lemma propertyWritten_eq:
  "propertyWritten f (s\<lparr>data := d\<rparr>) = s\<lparr>data := d, packetContext := contextWritten f (packetContext s)\<rparr>"
  by (simp add: propertyWritten_def contextWritten_def setHasProperty_def)

text \<open>What a call leaves, whichever branch is taken.\<close>

lemma append_cases:
  assumes "appendValue P a p f v s = Inr (n, s')"
  obtains (invalid) msg where "validityCheck a v = Inr False" "n = 0" "s' = console_error msg s"
  | (nofit) "validityCheck a v = Inr True" "\<not> p + int (serializedSize P a v) \<le> int (length (data s))"
      "n = 0" "s' = appendStatePartial s"
  | (fits) "validityCheck a v = Inr True" "p + int (serializedSize P a v) \<le> int (length (data s))"
      "0 \<le> p" "n = serializedSize P a v"
      "s' = s\<lparr>data := storeBytes (data s) (nat p) (serializedBytes P a v),
              packetContext := contextWritten f (packetContext s)\<rparr>"
proof (cases "validityCheck a v")
  case (Inl e)
  then show ?thesis using assms by (simp add: append_throws)
next
  case (Inr b)
  show ?thesis
  proof (cases b)
    case False
    with Inr assms show ?thesis using append_invalid [of a v P p f s] invalid by auto
  next
    case True
    show ?thesis
    proof (cases "p + int (serializedSize P a v) \<le> int (length (data s))")
      case fit: True
      show ?thesis
      proof (cases "p < 0")
        case neg: True
        with Inr True fit assms show ?thesis
          using append_negative [of a v p P s f] by simp
      next
        case False
        have valid: "validityCheck a v = Inr True"
          using Inr True by simp
        have pos: "0 \<le> p"
          using False by simp
        have "Inr (n, s') = Inr (serializedSize P a v,
            propertyWritten f (s\<lparr>data := storeBytes (data s) (nat p) (serializedBytes P a v)\<rparr>))"
          using append_at_position [OF valid fit pos, of f] assms by simp
        then have n: "n = serializedSize P a v"
          and s': "s' = propertyWritten f (s\<lparr>data := storeBytes (data s) (nat p) (serializedBytes P a v)\<rparr>)"
          by simp_all
        show ?thesis
          by (rule fits [OF valid fit pos n]) (simp only: s' propertyWritten_eq)
      qed
    next
      case False
      with Inr True assms show ?thesis
        using append_nofit [of a v p P s f] nofit by auto
    qed
  qed
qed
section \<open>Evaluation at concrete inputs\<close>

lemma le_bytes_numeral:
  "le_bytes (numeral k) v = word_of_int v # le_bytes (pred_numeral k) (v div 256)"
  by (simp add: numeral_eq_Suc)

lemma replicate_numeral:
  "replicate (numeral k) x = x # replicate (pred_numeral k) x"
  by (simp add: numeral_eq_Suc)

section \<open>The encoder at the inputs of its unit test\<close>

text \<open>
  The flag block of the expected messages of \<open>EntityItemProperties.unit.test.js\<close>,
  \<open>fff00002000000000000000040\<close>, is the block of 13 bytes of the flags 17 and 84.
\<close>

lemma flagBlock_unit_test:
  "flagBlock (encodedLength {17, 84}) {17, 84} =
     [0xff, 0xf0, 0x00, 0x02, 0x00, 0x00, 0x00, 0x00, 0x00, 0x00, 0x00, 0x00, 0x40]"
  by code_simp

text \<open>
  "Can encode entity properties": with room for both properties the encoder returns
  \<open>COMPLETED\<close>, \<open>didntFitProperties\<close> is empty, and the buffer up to
  \<open>messageData.dataPosition\<close> is the expected message
  \<open>00b685f1f20a000600b71d53802fcc483393a79a49670175874000fff000020000000000000000401000a82f40b6ee8946ccb50402b88d72a546f02594\<close>.
\<close>

lemma encode_unit_test_full_fit:
  "(case encodeEntityEditPacket examplePlatform exampleHeader 19 exampleRequested 0 (exampleState 80) of
      Inl e \<Rightarrow> None
    | Inr res \<Rightarrow> Some (returnedState res, didntFitOut res, messageDataPosition res,
        take (nat (messageDataPosition res)) (data (stateOut res)))) =
    Some (COMPLETED, {}, 61,
       [0x00, 0xb6, 0x85, 0xf1, 0xf2, 0x0a, 0x00, 0x06, 0x00,
        0xb7, 0x1d, 0x53, 0x80, 0x2f, 0xcc, 0x48, 0x33, 0x93, 0xa7, 0x9a, 0x49, 0x67, 0x01, 0x75, 0x87,
        0x40, 0x00,
        0xff, 0xf0, 0x00, 0x02, 0x00, 0x00, 0x00, 0x00, 0x00, 0x00, 0x00, 0x00, 0x40,
        0x10, 0x00,
        0xa8, 0x2f, 0x40, 0xb6, 0xee, 0x89, 0x46, 0xcc, 0xb5, 0x04, 0x02, 0xb8, 0x8d, 0x72, 0xa5, 0x46,
        0xf0, 0x25, 0x94])"
  by code_simp

text \<open>
  "If not all entity properties can fit": with a buffer of 51 bytes, 5 bytes behind the
  reserved flag block, the UUID does not fit and the color does; the encoder returns
  \<open>PARTIAL\<close>, \<open>didntFitProperties\<close> holds \<open>PROP_LAST_EDITED_BY\<close> only, and the buffer up to
  \<open>messageData.dataPosition\<close> is the expected message
  \<open>00b685f1f20a000600b71d53802fcc483393a79a49670175874000fff00000000000000000000040f02594\<close>.
\<close>

lemma encode_unit_test_partial_fit:
  "(case encodeEntityEditPacket examplePlatform exampleHeader 19 exampleRequested 0 (exampleState 51) of
      Inl e \<Rightarrow> None
    | Inr res \<Rightarrow> Some (returnedState res, didntFitOut res, messageDataPosition res,
        take (nat (messageDataPosition res)) (data (stateOut res)))) =
    Some (PARTIAL, {17}, 43,
       [0x00, 0xb6, 0x85, 0xf1, 0xf2, 0x0a, 0x00, 0x06, 0x00,
        0xb7, 0x1d, 0x53, 0x80, 0x2f, 0xcc, 0x48, 0x33, 0x93, 0xa7, 0x9a, 0x49, 0x67, 0x01, 0x75, 0x87,
        0x40, 0x00,
        0xff, 0xf0, 0x00, 0x00, 0x00, 0x00, 0x00, 0x00, 0x00, 0x00, 0x00, 0x00, 0x40,
        0xf0, 0x25, 0x94])"
  by code_simp

text \<open>
  "If no entity properties can fit": with a buffer of 48 bytes the encoder returns
  \<open>NONE\<close>, \<open>didntFitProperties\<close> holds both properties, and \<open>messageData.dataPosition\<close> is 0
  as before the call.
\<close>

lemma encode_unit_test_no_fit:
  "(case encodeEntityEditPacket examplePlatform exampleHeader 19 exampleRequested 0 (exampleState 48) of
      Inl e \<Rightarrow> None
    | Inr res \<Rightarrow> Some (returnedState res, didntFitOut res, messageDataPosition res)) =
    Some (NONE, {17, 84}, 0)"
  by code_simp

section \<open>C5: the 128-bit round trip\<close>

text \<open>
  Claim C5. For every bigint \<open>x\<close> with \<open>0 \<le> x < 2 ^ 128\<close>, every byte offset with 16
  bytes of room in the view, and each byte order: \<open>setBigUint128\<close> of \<open>x\<close> succeeds, and
  \<open>getBigUint128\<close> at the same offset and byte order, on the view it leaves, returns \<open>x\<close>.
\<close>

theorem uint128_roundtrip:
  assumes "0 \<le> x" and "x < 2 ^ 128"
    and "0 \<le> byteOffset" and "byteOffset + 16 \<le> int (byteLength d)"
  shows "\<exists>d'. setBigUint128 d byteOffset x littleEndian = Inr d' \<and>
              getBigUint128 d' byteOffset littleEndian = Inr x"
proof -
  from assms(3) obtain p where p: "byteOffset = int p"
    using nonneg_int_cases by blast
  have len: "p + 16 \<le> length d"
    using assms(4) unfolding p by (simp add: byteLength_def)
  have small: "\<not> x > MAX_U128_VALUE"
    using assms(2) by (simp add: MAX_U128_VALUE_def)
  have halves: "push_bit 64 (drop_bit 64 x mod 256 ^ 8) + (x AND 0xffffffffffffffff) mod 256 ^ 8 = x"
    by (rule bigint_halves [OF assms(1,2)])
  show ?thesis
  proof (cases littleEndian)
    case True
    let ?lo = "int_bytes True 8 (x AND MASK_64_BITS)"
    let ?hi = "int_bytes True 8 (drop_bit 64 x)"
    have "read_bytes (storeBytes d p (?lo @ ?hi)) (int p + 8) 8 = Inr ?hi"
      using read_storeBytes_second [of ?lo 8 ?hi 8 p d] len by simp
    moreover have "read_bytes (storeBytes d p (?lo @ ?hi)) (int p) 8 = Inr ?lo"
      using read_storeBytes_first [of ?lo 8 p ?hi d] len by simp
    ultimately have "getBigUint128 (storeBytes d p (?lo @ ?hi)) (int p) True = Inr x"
      using halves
      by (simp add: getBigUint128_def getBigUint64_def bytes_int_int_bytes SHIFT_64_BITS_def
          MASK_64_BITS_def)
    then show ?thesis
      using small True unfolding p by (simp add: setBigUint128_fits [OF len] Let_def)
  next
    case False
    let ?lo = "int_bytes False 8 (x AND MASK_64_BITS)"
    let ?hi = "int_bytes False 8 (drop_bit 64 x)"
    have "read_bytes (storeBytes d p (?hi @ ?lo)) (int p + 8) 8 = Inr ?lo"
      using read_storeBytes_second [of ?hi 8 ?lo 8 p d] len by simp
    moreover have "read_bytes (storeBytes d p (?hi @ ?lo)) (int p) 8 = Inr ?hi"
      using read_storeBytes_first [of ?hi 8 p ?lo d] len by simp
    ultimately have "getBigUint128 (storeBytes d p (?hi @ ?lo)) (int p) False = Inr x"
      using halves
      by (simp add: getBigUint128_def getBigUint64_def bytes_int_int_bytes SHIFT_64_BITS_def
          MASK_64_BITS_def)
    then show ?thesis
      using small False unfolding p by (simp add: setBigUint128_fits [OF len] Let_def)
  qed
qed

theorem uint128_roundtrip_witness:
  "(0::int) \<le> 0x0123456789abcdeffedcba9876543210 \<and>
   (0x0123456789abcdeffedcba9876543210::int) < 2 ^ 128 \<and>
   (0::int) \<le> 2 \<and> 2 + 16 \<le> int (byteLength (replicate 20 0)) \<and>
   (\<exists>d'. setBigUint128 (replicate 20 0) 2 0x0123456789abcdeffedcba9876543210 False = Inr d' \<and>
         getBigUint128 d' 2 False = Inr 0x0123456789abcdeffedcba9876543210)"
  using uint128_roundtrip [of "0x0123456789abcdeffedcba9876543210" 2 "replicate 20 0" False]
  by (simp add: byteLength_def)
section \<open>C1: a value that fits is written\<close>



section \<open>C2: a value that does not fit, and buffer safety\<close>

text \<open>
  Claim C2 says that the byte count returned, added to the \<open>dataPosition\<close> of the call,
  never exceeds \<open>data.byteLength\<close>. A call at a position beyond the buffer returns 0, and
  the position alone exceeds the length. So for \<open>appendUint8Value\<close> of the value 7 at the
  position 5 of a buffer of 3 bytes, which returns 0 with \<open>appendState = PARTIAL\<close>.
\<close>

theorem typed_appender_beyond_buffer:
  "validityCheck Uint8Value (JSNumber (Finite 7)) = Inr True \<and>
   appendValue examplePlatform Uint8Value 5 3 (JSNumber (Finite 7)) (exampleState 3) =
     Inr (0, (exampleState 3)\<lparr>packetContext := (packetContext (exampleState 3))\<lparr>appendState := PARTIAL\<rparr>\<rparr>) \<and>
   \<not> 5 + int 0 \<le> int (byteLength (data (exampleState 3)))"
  by (simp add: validUint8Value_def js_le_def appendUint8Value_def byteLength_def exampleState_def
      appendStatePartial_def)

text \<open>
  Claim C2, with the sum bounded for the calls that return bytes or are given a position
  of the buffer. For every typed appender: if the value is valid and
  \<open>dataPosition + N > data.byteLength\<close>, the call writes nothing, sets \<open>appendState\<close> to
  \<open>PARTIAL\<close>, leaves \<open>propertiesToWrite\<close>, \<open>propertiesWritten\<close> and \<open>propertyCount\<close> as they
  are, logs nothing, and returns 0. No typed appender writes at a byte index from
  \<open>data.byteLength\<close> on: the only \<open>RangeError\<close> of a call is that of a negative
  \<open>dataPosition\<close>, and a call that returns leaves the view at its length and every byte
  outside the \<open>n\<close> bytes from \<open>dataPosition\<close> on as it was, \<open>n\<close> the byte count returned. If
  \<open>n\<close> is positive or \<open>dataPosition\<close> does not exceed \<open>data.byteLength\<close>, then
  \<open>dataPosition + n\<close> does not exceed \<open>data.byteLength\<close>.
\<close>

theorem typed_appender_does_not_fit:
  "(validityCheck a v = Inr True \<and>
    int (byteLength (data s)) < dataPosition + int (serializedSize P a v) \<longrightarrow>
      appendValue P a dataPosition flag v s =
        Inr (0, s\<lparr>packetContext := (packetContext s)\<lparr>appendState := PARTIAL\<rparr>\<rparr>)) \<and>
   (appendValue P a dataPosition flag v s = Inl RangeError \<longrightarrow> dataPosition < 0) \<and>
   (\<forall>n s'. appendValue P a dataPosition flag v s = Inr (n, s') \<longrightarrow>
      byteLength (data s') = byteLength (data s) \<and>
      (\<forall>i. i < byteLength (data s) \<and> (int i < dataPosition \<or> dataPosition + int n \<le> int i) \<longrightarrow>
           data s' ! i = data s ! i) \<and>
      (0 < n \<or> dataPosition \<le> int (byteLength (data s)) \<longrightarrow>
           dataPosition + int n \<le> int (byteLength (data s))))"
proof (intro conjI impI allI)
  assume "validityCheck a v = Inr True \<and>
    int (byteLength (data s)) < dataPosition + int (serializedSize P a v)"
  then show "appendValue P a dataPosition flag v s =
      Inr (0, s\<lparr>packetContext := (packetContext s)\<lparr>appendState := PARTIAL\<rparr>\<rparr>)"
    using append_nofit [of a v dataPosition P s flag]
    by (simp add: byteLength_def appendStatePartial_def)
next
  assume "appendValue P a dataPosition flag v s = Inl RangeError"
  then show "dataPosition < 0"
    by (simp add: append_RangeError)
next
  fix n s'
  assume r: "appendValue P a dataPosition flag v s = Inr (n, s')"
  then show "byteLength (data s') = byteLength (data s)"
  proof (cases rule: append_cases)
    case fits
    then have "nat dataPosition + length (serializedBytes P a v) \<le> length (data s)"
      by (simp add: length_serializedBytes)
    then show ?thesis
      using fits by (simp add: byteLength_def)
  qed (simp_all add: byteLength_def console_error_def appendStatePartial_def)
next
  fix n s' i
  assume r: "appendValue P a dataPosition flag v s = Inr (n, s')"
    and i: "i < byteLength (data s) \<and> (int i < dataPosition \<or> dataPosition + int n \<le> int i)"
  from r show "data s' ! i = data s ! i"
  proof (cases rule: append_cases)
    case fits
    have "int i < dataPosition \<or> dataPosition + int (serializedSize P a v) \<le> int i"
      using i fits by simp
    then have "i < nat dataPosition \<or> nat dataPosition + serializedSize P a v \<le> i"
      using fits(3) by linarith
    then have "i < nat dataPosition \<or> nat dataPosition + length (serializedBytes P a v) \<le> i"
      using fits(1) by (simp add: length_serializedBytes)
    moreover have "nat dataPosition + length (serializedBytes P a v) \<le> length (data s)"
      using fits by (simp add: length_serializedBytes)
    ultimately have "storeBytes (data s) (nat dataPosition) (serializedBytes P a v) ! i = data s ! i"
      using i by (intro storeBytes_nth_outside) (simp_all add: byteLength_def)
    then show ?thesis
      using fits by simp
  qed (simp_all add: console_error_def appendStatePartial_def)
next
  fix n s'
  assume r: "appendValue P a dataPosition flag v s = Inr (n, s')"
    and "0 < n \<or> dataPosition \<le> int (byteLength (data s))"
  then show "dataPosition + int n \<le> int (byteLength (data s))"
    by (cases rule: append_cases) (auto simp: byteLength_def)
qed

theorem typed_appender_does_not_fit_witness:
  "validityCheck ColorValue exampleColor = Inr True \<and>
   int (byteLength (data (exampleState 48))) < 46 + int (serializedSize examplePlatform ColorValue exampleColor) \<and>
   appendValue examplePlatform ColorValue 46 5 exampleColor (exampleState 48) =
     Inr (0, (exampleState 48)\<lparr>packetContext := (packetContext (exampleState 48))\<lparr>appendState := PARTIAL\<rparr>\<rparr>) \<and>
   byteLength (data ((exampleState 48)\<lparr>packetContext := (packetContext (exampleState 48))\<lparr>appendState := PARTIAL\<rparr>\<rparr>))
     = byteLength (data (exampleState 48)) \<and>
   (46::int) \<le> int (byteLength (data (exampleState 48))) \<and>
   46 + int 0 \<le> int (byteLength (data (exampleState 48)))"
proof -
  have v: "validityCheck ColorValue exampleColor = Inr True"
    by (simp add: validColorValue_def exampleColor_def getPath.simps typeof_is_def)
  have n: "int (byteLength (data (exampleState 48))) < 46 + int (serializedSize examplePlatform ColorValue exampleColor)"
    by (simp add: byteLength_def exampleState_def)
  have p: "(46::int) \<le> int (byteLength (data (exampleState 48)))"
    by (simp add: byteLength_def exampleState_def)
  from typed_appender_does_not_fit [of ColorValue exampleColor "exampleState 48" 46 examplePlatform 5] v n
  have r: "appendValue examplePlatform ColorValue 46 5 exampleColor (exampleState 48) =
     Inr (0, (exampleState 48)\<lparr>packetContext := (packetContext (exampleState 48))\<lparr>appendState := PARTIAL\<rparr>\<rparr>)"
    by blast
  from typed_appender_does_not_fit [of ColorValue exampleColor "exampleState 48" 46 examplePlatform 5] r p
  have "byteLength (data ((exampleState 48)\<lparr>packetContext := (packetContext (exampleState 48))\<lparr>appendState := PARTIAL\<rparr>\<rparr>))
     = byteLength (data (exampleState 48)) \<and>
     46 + int 0 \<le> int (byteLength (data (exampleState 48)))"
    by blast
  with v n r p show ?thesis by blast
qed
section \<open>C4: an invalid value\<close>

text \<open>
  Claim C4. For every typed appender: if the value fails the validity check of the
  appender, the call logs an error and returns 0, and the buffer and every field of the
  packet context are as before. An array of more than 65535 elements is invalid for the
  appenders of arrays, with this outcome.
\<close>

theorem typed_appender_invalid:
  "(validityCheck a v = Inr False \<longrightarrow>
      (\<exists>msg. appendValue P a dataPosition flag v s = Inr (0, s\<lparr>console := console s @ [msg]\<rparr>))) \<and>
   (arrayAppender a \<and> 65535 < length xs \<longrightarrow>
      validityCheck a (JSArray xs) = Inr False \<and>
      (\<exists>msg. appendValue P a dataPosition flag (JSArray xs) s = Inr (0, s\<lparr>console := console s @ [msg]\<rparr>)))"
proof -
  have inv: "\<exists>msg. appendValue P a dataPosition flag w s = Inr (0, s\<lparr>console := console s @ [msg]\<rparr>)"
    if "validityCheck a w = Inr False" for w
    using append_invalid [OF that, of P dataPosition flag s] by (simp add: console_error_def)
  have long: "validityCheck a (JSArray xs) = Inr False"
    if "arrayAppender a" and "65535 < length xs"
    using that
    by (cases a) (simp_all add: valid_defs Array_isArray_def elements_def)
  show ?thesis
    using inv long by blast
qed

theorem typed_appender_invalid_witness:
  "validityCheck Uint8Value (JSNumber (Finite 256)) = Inr False \<and>
   (\<exists>msg. appendValue examplePlatform Uint8Value 0 3 (JSNumber (Finite 256)) (exampleState 4) =
      Inr (0, (exampleState 4)\<lparr>console := console (exampleState 4) @ [msg]\<rparr>)) \<and>
   arrayAppender UuidArray \<and> 65535 < length (replicate 65536 exampleUuid) \<and>
   validityCheck UuidArray (JSArray (replicate 65536 exampleUuid)) = Inr False \<and>
   (\<exists>msg. appendValue examplePlatform UuidArray 0 3 (JSArray (replicate 65536 exampleUuid)) (exampleState 4) =
      Inr (0, (exampleState 4)\<lparr>console := console (exampleState 4) @ [msg]\<rparr>))"
proof -
  have v: "validityCheck Uint8Value (JSNumber (Finite 256)) = Inr False"
    by (simp add: validUint8Value_def js_le_def)
  have l: "arrayAppender UuidArray \<and> 65535 < length (replicate 65536 exampleUuid)"
    by simp
  from typed_appender_invalid [of Uint8Value "JSNumber (Finite 256)" examplePlatform 0 3 "exampleState 4"
      "replicate 65536 exampleUuid"] v
  have 1: "\<exists>msg. appendValue examplePlatform Uint8Value 0 3 (JSNumber (Finite 256)) (exampleState 4) =
      Inr (0, (exampleState 4)\<lparr>console := console (exampleState 4) @ [msg]\<rparr>)"
    by blast
  from typed_appender_invalid [of UuidArray "JSNumber (Finite 256)" examplePlatform 0 3 "exampleState 4"
      "replicate 65536 exampleUuid"] l
  have 2: "validityCheck UuidArray (JSArray (replicate 65536 exampleUuid)) = Inr False \<and>
   (\<exists>msg. appendValue examplePlatform UuidArray 0 3 (JSArray (replicate 65536 exampleUuid)) (exampleState 4) =
      Inr (0, (exampleState 4)\<lparr>console := console (exampleState 4) @ [msg]\<rparr>))"
    by blast
  from v 1 l 2 show ?thesis by blast
qed
section \<open>C6: the flag sets stay disjoint\<close>

text \<open>
  Claim C6. For every typed appender: if \<open>propertiesToWrite\<close> and \<open>propertiesWritten\<close> share
  no flag before the call, they share no flag after it, whether the value was invalid, did
  not fit or was written.
\<close>

theorem typed_appender_keeps_disjoint:
  assumes "disjointFlags (packetContext s)"
    and "appendValue P a dataPosition flag v s = Inr (n, s')"
  shows "disjointFlags (packetContext s')"
  using assms(2,1)
  by (cases rule: append_cases)
    (auto simp: disjointFlags_def console_error_def appendStatePartial_def contextWritten_def)

theorem typed_appender_keeps_disjoint_witness:
  "disjointFlags (packetContext (exampleState 10)) \<and>
   appendValue examplePlatform (Uint64Value True) 2 3 (JSBigInt 0x0102030405060708) (exampleState 10) =
     Inr (8, (exampleState 10)\<lparr>data := [0, 0, 8, 7, 6, 5, 4, 3, 2, 1],
        packetContext := \<lparr>propertiesToWrite = {5}, propertiesWritten = {1, 3}, propertyCount = 2,
          appendState = COMPLETED\<rparr>\<rparr>) \<and>
   disjointFlags \<lparr>propertiesToWrite = {5}, propertiesWritten = {1, 3}, propertyCount = 2,
          appendState = COMPLETED\<rparr>"
proof -
  have d: "disjointFlags (packetContext (exampleState 10))"
    by (simp add: disjointFlags_def exampleState_def exampleContext_def)
  have r: "appendValue examplePlatform (Uint64Value True) 2 3 (JSBigInt 0x0102030405060708) (exampleState 10) =
     Inr (8, (exampleState 10)\<lparr>data := [0, 0, 8, 7, 6, 5, 4, 3, 2, 1],
        packetContext := \<lparr>propertiesToWrite = {5}, propertiesWritten = {1, 3}, propertyCount = 2,
          appendState = COMPLETED\<rparr>\<rparr>)"
    by (simp add: appendUint64Value_def validUint64Value_def js_le_def byteLength_def
        exampleState_def exampleContext_def setBigUint64_def write_bytes_def ToIndex_def storeBytes_def
        int_bytes_def propertyWritten_def setHasProperty_def le_bytes_numeral replicate_numeral
        insert_commute)
  from typed_appender_keeps_disjoint [OF d r] d r show ?thesis by simp
qed
section \<open>C7: float32 values\<close>

text \<open>
  Claim C7. \<open>appendFloat32Value\<close> rejects NaN, the two infinities and every value of
  magnitude greater than \<open>3.4028235e38\<close>: it logs, writes nothing and returns 0. For every
  finite value of magnitude at most \<open>3.4028235e38\<close> that fits in the buffer, at a position
  of the buffer, it writes the four bytes of the float32 in the byte order asked for,
  and returns 4.
\<close>

theorem appendFloat32Value_finite_only:
  "(n = NaN \<or> n = PosInfinity \<or> n = NegInfinity \<or> (\<exists>r. n = Finite r \<and> MAX_FLOAT32 < \<bar>r\<bar>) \<longrightarrow>
      appendFloat32Value P dataPosition flag (JSNumber n) littleEndian s =
        Inr (0, s\<lparr>console := console s @
               [''[EntityServer] Cannot write invalid float32 value to packet!'']\<rparr>)) \<and>
   ((\<exists>r. n = Finite r \<and> \<bar>r\<bar> \<le> MAX_FLOAT32) \<and>
    0 \<le> dataPosition \<and> dataPosition + 4 \<le> int (byteLength (data s)) \<longrightarrow>
      appendFloat32Value P dataPosition flag (JSNumber n) littleEndian s =
        Inr (4, s\<lparr>data := storeBytes (data s) (nat dataPosition)
                        (int_bytes littleEndian 4 (uint (float32_bits P n))),
                  packetContext := contextWritten flag (packetContext s)\<rparr>))"
proof (intro conjI impI)
  assume "n = NaN \<or> n = PosInfinity \<or> n = NegInfinity \<or> (\<exists>r. n = Finite r \<and> MAX_FLOAT32 < \<bar>r\<bar>)"
  then have "validFloat32Value (JSNumber n) = Inr False"
    by (auto simp: validFloat32Value_def js_le_def)
  then show "appendFloat32Value P dataPosition flag (JSNumber n) littleEndian s =
      Inr (0, s\<lparr>console := console s @
             [''[EntityServer] Cannot write invalid float32 value to packet!'']\<rparr>)"
    by (simp add: appendFloat32Value_def console_error_def)
next
  assume a: "(\<exists>r. n = Finite r \<and> \<bar>r\<bar> \<le> MAX_FLOAT32) \<and>
    0 \<le> dataPosition \<and> dataPosition + 4 \<le> int (byteLength (data s))"
  then obtain p where p: "dataPosition = int p"
    using nonneg_int_cases by blast
  from a have "validFloat32Value (JSNumber n) = Inr True"
    by (auto simp: validFloat32Value_def js_le_def)
  then show "appendFloat32Value P dataPosition flag (JSNumber n) littleEndian s =
      Inr (4, s\<lparr>data := storeBytes (data s) (nat dataPosition)
                      (int_bytes littleEndian 4 (uint (float32_bits P n))),
                packetContext := contextWritten flag (packetContext s)\<rparr>)"
    using a appendFloat32Value_written [of "JSNumber n" p s P flag littleEndian] unfolding p
    by (simp add: byteLength_def propertyWritten_eq float32Bytes_def)
qed

theorem appendFloat32Value_finite_only_witness:
  "appendFloat32Value examplePlatform 0 3 (JSNumber PosInfinity) True (exampleState 4) =
     Inr (0, (exampleState 4)\<lparr>console := console (exampleState 4) @
            [''[EntityServer] Cannot write invalid float32 value to packet!'']\<rparr>) \<and>
   \<bar>3 / 2\<bar> \<le> MAX_FLOAT32 \<and> (0::int) \<le> 0 \<and> 0 + 4 \<le> int (byteLength (data (exampleState 4))) \<and>
   appendFloat32Value examplePlatform 0 3 (JSNumber (Finite (3 / 2))) True (exampleState 4) =
     Inr (4, (exampleState 4)\<lparr>data := storeBytes (data (exampleState 4)) (nat 0)
                (int_bytes True 4 (uint (float32_bits examplePlatform (Finite (3 / 2))))),
            packetContext := contextWritten 3 (packetContext (exampleState 4))\<rparr>)"
proof -
  have m: "\<bar>3 / 2\<bar> \<le> MAX_FLOAT32"
    by (simp add: MAX_FLOAT32_def)
  have f: "(0::int) \<le> 0 \<and> 0 + 4 \<le> int (byteLength (data (exampleState 4)))"
    by (simp add: byteLength_def exampleState_def)
  from m have r: "\<exists>r. Finite (3 / 2) = Finite r \<and> \<bar>r\<bar> \<le> MAX_FLOAT32"
    by blast
  show ?thesis
    using appendFloat32Value_finite_only [of PosInfinity examplePlatform 0 3 True "exampleState 4"]
      appendFloat32Value_finite_only [of "Finite (3 / 2)" examplePlatform 0 3 True "exampleState 4"]
      m f r
    by blast
qed
section \<open>C8: the encoding of a UUID\<close>

text \<open>
  Claim C8. \<open>appendUuidValue\<close> encodes the null UUID as exactly 2 bytes, a \<open>u16\<close> length
  field of 0, and returns 2; it encodes any other UUID as exactly 18 bytes, a \<open>u16\<close>
  length field of 16 (little-endian, as every scalar field) and the 16 bytes of the UUID
  in big-endian order, and returns 18; each whenever the bytes fit in the buffer, at a
  position of the buffer.
\<close>

theorem appendUuidValue_encoding:
  "(0 \<le> dataPosition \<and> dataPosition + 2 \<le> int (byteLength (data s)) \<longrightarrow>
      appendUuidValue dataPosition flag (JSUuid 0) s =
        Inr (2, s\<lparr>data := storeBytes (data s) (nat dataPosition) (int_bytes LITTLE_ENDIAN 2 0),
                  packetContext := contextWritten flag (packetContext s)\<rparr>)) \<and>
   (u \<noteq> 0 \<and> 0 \<le> dataPosition \<and> dataPosition + 18 \<le> int (byteLength (data s)) \<longrightarrow>
      appendUuidValue dataPosition flag (JSUuid u) s =
        Inr (18, s\<lparr>data := storeBytes (data s) (nat dataPosition)
                         (int_bytes LITTLE_ENDIAN 2 16 @ int_bytes BIG_ENDIAN 16 (uint u)),
                   packetContext := contextWritten flag (packetContext s)\<rparr>))"
proof (cases "0 \<le> dataPosition")
  case True
  then obtain p where p: "dataPosition = int p"
    using nonneg_int_cases by blast
  show ?thesis
    using appendUuidValue_null [of p s flag] appendUuidValue_nonnull [of u p s flag] unfolding p
    by (simp add: byteLength_def propertyWritten_eq)
next
  case False
  then show ?thesis by simp
qed

theorem appendUuidValue_encoding_witness:
  "(0::int) \<le> 0 \<and> 0 + 2 \<le> int (byteLength (data (exampleState 2))) \<and>
   appendUuidValue 0 3 (JSUuid 0) (exampleState 2) =
     Inr (2, (exampleState 2)\<lparr>data := [0, 0],
            packetContext := contextWritten 3 (packetContext (exampleState 2))\<rparr>) \<and>
   (0xa82f40b6ee8946ccb50402b88d72a546 :: 128 word) \<noteq> 0 \<and>
   0 + 18 \<le> int (byteLength (data (exampleState 18))) \<and>
   appendUuidValue 0 3 exampleUuid (exampleState 18) =
     Inr (18, (exampleState 18)\<lparr>data :=
              [0x10, 0x00, 0xa8, 0x2f, 0x40, 0xb6, 0xee, 0x89, 0x46, 0xcc,
               0xb5, 0x04, 0x02, 0xb8, 0x8d, 0x72, 0xa5, 0x46],
            packetContext := contextWritten 3 (packetContext (exampleState 18))\<rparr>)"
  using appendUuidValue_encoding [of 0 "exampleState 2" 3 0]
    appendUuidValue_encoding [of 0 "exampleState 18" 3 "0xa82f40b6ee8946ccb50402b88d72a546"]
  by (simp add: byteLength_def exampleState_def exampleUuid_def storeBytes_def int_bytes_def
      LITTLE_ENDIAN_def BIG_ENDIAN_def le_bytes_numeral replicate_numeral)
section \<open>C9: a color with a component out of range\<close>

text \<open>
  Claim C9 says that \<open>appendColorValue\<close> treats a color with a component outside 0 to 255
  as invalid. The validity check of the code asks only that the three components are
  numbers: the color with red 256 passes it, 3 bytes are written, the red one 0, the
  flag is marked as written, and 3 is returned.
\<close>

theorem appendColorValue_out_of_range:
  "validColorValue (JSObject [(''red'', JSNumber (Finite 256)), (''green'', JSNumber (Finite 37)),
      (''blue'', JSNumber (Finite 148))]) = Inr True \<and>
   appendColorValue 0 5
     (JSObject [(''red'', JSNumber (Finite 256)), (''green'', JSNumber (Finite 37)),
        (''blue'', JSNumber (Finite 148))])
     \<lparr>data = [255, 255, 255], packetContext = exampleContext, console = []\<rparr> =
   Inr (3, \<lparr>data = [0, 37, 148],
            packetContext = \<lparr>propertiesToWrite = {3}, propertiesWritten = {1, 5}, propertyCount = 2,
              appendState = COMPLETED\<rparr>,
            console = []\<rparr>)"
  by (simp add: validColorValue_def appendColorValue_def getPath.simps typeof_is_def byteLength_def
      setUint8_def write_bytes_def ToIndex_def storeBytes_def int_bytes_def exampleContext_def
      propertyWritten_def setHasProperty_def le_bytes_numeral insert_commute insert_Diff_if)

section \<open>C10: the ring gizmo property group\<close>

lemma skipProperty_add:
  "skipProperty fs flag n p = p + (if flag \<in> fs then n else 0)"
  by (simp add: skipProperty_def getHasProperty_def)

text \<open>
  Claim C10. For every DataView, start position and property-flag set,
  \<open>RingGizmoPropertyGroup.readEntitySubclassDataFromBuffer\<close> returns the empty record as
  the properties and, as the bytes read, the sum of the fixed field sizes of the ring
  gizmo property flags that are in the set; the result is the same for any two DataViews
  and any two positions, the function reading nothing of the DataView (and it returns no
  DataView: it has none to write).
\<close>

theorem ring_gizmo_bytes_read:
  "readEntitySubclassDataFromBuffer E d position propertyFlags =
     \<lparr>bytesRead = presentSizes propertyFlags (ringGizmoFields E), properties = JSObject []\<rparr> \<and>
   readEntitySubclassDataFromBuffer E d' position' propertyFlags =
     readEntitySubclassDataFromBuffer E d position propertyFlags"
  by (simp add: readEntitySubclassDataFromBuffer_def skipProperty_add ringGizmoFields_def
      split del: if_split)


theorem ring_gizmo_bytes_read_witness:
  "readEntitySubclassDataFromBuffer
     \<lparr>PROP_START_ANGLE = 100, PROP_END_ANGLE = 101, PROP_INNER_RADIUS = 102,
      PROP_INNER_START_COLOR = 103, PROP_INNER_END_COLOR = 104, PROP_OUTER_START_COLOR = 105,
      PROP_OUTER_END_COLOR = 106, PROP_INNER_START_ALPHA = 107, PROP_INNER_END_ALPHA = 108,
      PROP_OUTER_START_ALPHA = 109, PROP_OUTER_END_ALPHA = 110, PROP_HAS_TICK_MARKS = 111,
      PROP_MAJOR_TICK_MARKS_ANGLE = 112, PROP_MINOR_TICK_MARKS_ANGLE = 113,
      PROP_MAJOR_TICK_MARKS_LENGTH = 114, PROP_MINOR_TICK_MARKS_LENGTH = 115,
      PROP_MAJOR_TICK_MARKS_COLOR = 116, PROP_MINOR_TICK_MARKS_COLOR = 117\<rparr>
     [1, 2, 3] 7 {100, 103, 111, 5} =
   \<lparr>bytesRead = 8, properties = JSObject []\<rparr>"
  using ring_gizmo_bytes_read [of
     "\<lparr>PROP_START_ANGLE = 100, PROP_END_ANGLE = 101, PROP_INNER_RADIUS = 102,
      PROP_INNER_START_COLOR = 103, PROP_INNER_END_COLOR = 104, PROP_OUTER_START_COLOR = 105,
      PROP_OUTER_END_COLOR = 106, PROP_INNER_START_ALPHA = 107, PROP_INNER_END_ALPHA = 108,
      PROP_OUTER_START_ALPHA = 109, PROP_OUTER_END_ALPHA = 110, PROP_HAS_TICK_MARKS = 111,
      PROP_MAJOR_TICK_MARKS_ANGLE = 112, PROP_MINOR_TICK_MARKS_ANGLE = 113,
      PROP_MAJOR_TICK_MARKS_LENGTH = 114, PROP_MINOR_TICK_MARKS_LENGTH = 115,
      PROP_MAJOR_TICK_MARKS_COLOR = 116, PROP_MINOR_TICK_MARKS_COLOR = 117\<rparr>"
     "[1, 2, 3]" 7 "{100, 103, 111, 5}" "[]" 0]
  by (simp add: ringGizmoFields_def)

section \<open>C3: an edit packet that no property fits in\<close>

lemma length_flagBlock [simp]: "length (flagBlock numBytes flags) = numBytes"
  by (simp add: flagBlock_def)





end
